theory Spec2Isabelle
  imports Complex_Main
begin

section \<open>Arrays\<close>

text \<open>
  The engine of \<^verbatim>\<open>deepqc/scf/scf.py\<close> works on numpy arrays and torch tensors of
  double precision numbers. They are modelled as nested lists of reals, outermost axis
  first, the way Python prints them: a matrix \<open>D\<close> has the entry \<open>D ! r ! s\<close>, the
  projection tensor \<open>P\<close> of shape \<open>[nao, natom, nproj]\<close> the entry \<open>P ! r ! a ! p\<close>.
  Rounding is not modelled: every operation is the exact one over the reals. An axis of
  size zero leaves no trace in a nested list, so the shapes are those of tensors with no
  empty axis, as the tensors of a molecule with atoms and orbitals are.

  The libraries are modelled where the source calls them. \<^verbatim>\<open>torch.einsum\<close>,
  \<^verbatim>\<open>torch.split\<close>, \<^verbatim>\<open>torch.cat\<close> and \<^verbatim>\<open>torch.stack\<close> compute what their
  documentation says and raise when the sizes of their operands do not fit; where an
  array of the caller meets one of the engine, in the contraction with the density
  matrix and in numpy's sum and contraction, an axis of size 1 fits any size and is
  broadcast, as torch and numpy do. The
  eigenvalues of \<^verbatim>\<open>torch.symeig\<close>, the gradient of \<^verbatim>\<open>torch.autograd.grad\<close>, the
  model \<^verbatim>\<open>net\<close> and the methods of the mean-field solver are parameters of the
  engine; what the theorems need of them is stated as a hypothesis. Timers, logging,
  the device, \<^verbatim>\<open>gen_proj_ovlp\<close> and the two methods \<^verbatim>\<open>energy_elec0\<close> and
  \<^verbatim>\<open>energy_tot0\<close> that only call the solver are left out.
\<close>

type_synonym matrix = "real list list"
type_synonym tensor3 = "real list list list"
type_synonym tensor5 = "real list list list list list"

text \<open>
  The exceptions the source and its libraries raise. \<open>AssertionError\<close> is the
  \<^verbatim>\<open>assert\<close> of \<^verbatim>\<open>get_veff\<close>; \<open>RuntimeError\<close> is what torch raises when the
  operands of \<^verbatim>\<open>einsum\<close>, \<^verbatim>\<open>split\<close>, \<^verbatim>\<open>cat\<close> or \<^verbatim>\<open>stack\<close> do not fit;
  \<open>ValueError\<close> is numpy's for the same reason; \<open>AttributeError\<close> is a missing tag.
\<close>

datatype error = AssertionError | RuntimeError | ValueError | AttributeError

definition is_matrix :: "nat \<Rightarrow> nat \<Rightarrow> 'a list list \<Rightarrow> bool" where
  "is_matrix n m D \<longleftrightarrow> length D = n \<and> (\<forall>row \<in> set D. length row = m)"

definition is_tensor3 :: "nat \<Rightarrow> nat \<Rightarrow> nat \<Rightarrow> 'a list list list \<Rightarrow> bool" where
  "is_tensor3 n0 n1 n2 T \<longleftrightarrow> length T = n0 \<and> (\<forall>M \<in> set T. is_matrix n1 n2 M)"

text \<open>The sizes of the second and third axis, read off the first entry.\<close>

definition dim1 :: "'a list list \<Rightarrow> nat" where
  "dim1 T = (case T of [] \<Rightarrow> 0 | x # _ \<Rightarrow> length x)"

definition dim2 :: "'a list list list \<Rightarrow> nat" where
  "dim2 T = (case T of [] \<Rightarrow> 0 | x # _ \<Rightarrow> dim1 x)"

text \<open>
  Broadcasting: two axes bound to one index fit when their sizes agree or one of them
  is 1. The index then runs over the other size, and the axis of size 1 is read at its
  only position.
\<close>

definition broadcastable :: "nat \<Rightarrow> nat \<Rightarrow> bool" where
  "broadcastable n m \<longleftrightarrow> n = m \<or> n = 1 \<or> m = 1"

definition bsize :: "nat \<Rightarrow> nat \<Rightarrow> nat" where
  "bsize n m = (if n = 1 then m else n)"

definition bidx :: "nat \<Rightarrow> nat \<Rightarrow> nat" where
  "bidx n i = (if n = 1 then 0 else i)"

text \<open>\<^verbatim>\<open>np.broadcast_to(D, (n, m))\<close>: the matrix that a contraction reads in \<open>D\<close>.\<close>

definition broadcast_to :: "nat \<Rightarrow> nat \<Rightarrow> real list list \<Rightarrow> real list list" where
  "broadcast_to n m D =
     map (\<lambda>i. map (\<lambda>j. D ! bidx (length D) i ! bidx (dim1 D) j) [0..<m]) [0..<n]"

section \<open>The auxiliary basis and the shell sections\<close>

text \<open>
  A basis in pyscf's convention is a list of shells \<^verbatim>\<open>[l, [zeta, c, ...], ...]\<close>:
  the angular momentum, then one row per radial function. A shell is the pair of \<open>l\<close>
  and its rows, so that \<^verbatim>\<open>b[0]\<close> is \<open>fst b\<close> and \<^verbatim>\<open>len(b) - 1\<close> is
  \<open>length (snd b)\<close>.
\<close>

type_synonym shell = "nat \<times> real list list"

definition zeta :: "real list" where
  "zeta = map (\<lambda>e. (3 / 2) powi e) [17, 13, 10, 7, 5, 3, 2, 1, 0, -1, -2, -3]"

definition coef :: "real list list" where
  "coef = map (\<lambda>i. map (\<lambda>j. (if j = i then 1 else 0) - (if j = Suc i then 1 else 0))
                      [0..<length zeta]) [0..<length zeta]"

definition table :: "real list list" where
  "table = map (\<lambda>i. (zeta ! i) # (coef ! i)) [0..<length zeta]"

definition DEFAULT_BASIS :: "shell list" where
  "DEFAULT_BASIS = [(0, table), (1, table), (2, table)]"

text \<open>
  \<^verbatim>\<open>self.shell_sec = sum(([2*b[0]+1] * (len(b)-1) for b in basis), [])\<close>
\<close>

definition shell_sec :: "shell list \<Rightarrow> nat list" where
  "shell_sec basis = concat (map (\<lambda>b. replicate (length (snd b)) (2 * fst b + 1)) basis)"

text \<open>
  \<^verbatim>\<open>torch.split(t, sizes, -1)\<close> cuts the last axis into consecutive pieces of the given
  sizes, and raises when the sizes do not sum to the size of that axis.
\<close>

fun split_sizes :: "nat list \<Rightarrow> 'a list \<Rightarrow> 'a list list" where
  "split_sizes [] xs = []"
| "split_sizes (n # ns) xs = take n xs # split_sizes ns (drop n xs)"

definition torch_split :: "tensor3 \<Rightarrow> nat list \<Rightarrow> error + tensor3 list" where
  "torch_split T sizes =
     (if sum_list sizes \<noteq> dim2 T then Inl RuntimeError
      else Inr (map (\<lambda>k. map (map (\<lambda>row. split_sizes sizes row ! k)) T) [0..<length sizes]))"

text \<open>
  \<^verbatim>\<open>self.t_proj_shells = torch.split(self.t_proj_ovlp, self.shell_sec, -1)\<close>
\<close>

definition t_proj_shells :: "shell list \<Rightarrow> tensor3 \<Rightarrow> error + tensor3 list" where
  "t_proj_shells basis t_proj_ovlp = torch_split t_proj_ovlp (shell_sec basis)"

text \<open>
  \<^verbatim>\<open>torch.einsum('rap,saq->rsapq', po, po)\<close>. The two operands share the atom index,
  whose sizes must agree.
\<close>

definition einsum_rap_saq :: "tensor3 \<Rightarrow> tensor3 \<Rightarrow> error + tensor5" where
  "einsum_rap_saq po po' =
     (if dim1 po \<noteq> dim1 po' then Inl RuntimeError
      else Inr (map (\<lambda>r. map (\<lambda>s. map (\<lambda>a. map (\<lambda>p. map (\<lambda>q.
                  po ! r ! a ! p * po' ! s ! a ! q)
                [0..<dim2 po']) [0..<dim2 po]) [0..<dim1 po]) [0..<length po']) [0..<length po]))"

text \<open>A list comprehension whose body may raise: the first exception ends it.\<close>

fun sequence_err :: "(error + 'a) list \<Rightarrow> error + 'a list" where
  "sequence_err [] = Inr []"
| "sequence_err (x # xs) =
     (case x of Inl e \<Rightarrow> Inl e
      | Inr v \<Rightarrow> (case sequence_err xs of Inl e \<Rightarrow> Inl e | Inr vs \<Rightarrow> Inr (v # vs)))"

text \<open>
  \<^verbatim>\<open>self.t_proj_aos = [torch.einsum('rap,saq->rsapq', po, po) for po in self.t_proj_shells]\<close>
\<close>

definition t_proj_aos :: "tensor3 list \<Rightarrow> error + tensor5 list" where
  "t_proj_aos shells = sequence_err (map (\<lambda>po. einsum_rap_saq po po) shells)"

section \<open>Arguments, tags and the engine\<close>

text \<open>
  A numpy array handed to the engine can have any number of dimensions; its rank is
  part of the value. Arrays of four and more dimensions carry their rank only.
\<close>

datatype ndarray =
  Arr0 real | Arr1 "real list" | Arr2 matrix | Arr3 tensor3 | ArrN nat

fun ndim :: "ndarray \<Rightarrow> nat" where
  "ndim (Arr0 x) = 0"
| "ndim (Arr1 v) = 1"
| "ndim (Arr2 D) = 2"
| "ndim (Arr3 T) = 3"
| "ndim (ArrN k) = k + 4"

fun has_shape2 :: "nat \<Rightarrow> nat \<Rightarrow> ndarray \<Rightarrow> bool" where
  "has_shape2 n m (Arr2 D) = is_matrix n m D"
| "has_shape2 n m other = False"

text \<open>
  \<^verbatim>\<open>lib.tag_array(vtot, ec=ec, v0=v0)\<close>: an array with optional attributes.
  \<^verbatim>\<open>getattr(vhf, 'ec', None)\<close> is \<open>tag_ec\<close>.
\<close>

record tagged =
  arr :: matrix
  tag_ec :: "real option"
  tag_v0 :: "matrix option"

text \<open>
  The engine \<^verbatim>\<open>self\<close>, with what it holds of its collaborators: the eigenvalues of
  \<^verbatim>\<open>torch.symeig\<close> for one matrix, \<^verbatim>\<open>torch.autograd.grad\<close> (given the function
  from the differentiated tensors to the scalar, and the point), the model \<^verbatim>\<open>net\<close>,
  and of the mean-field solver the baseline potential \<^verbatim>\<open>get_veff0\<close>, the density matrix
  \<^verbatim>\<open>make_rdm1()\<close> and the core Hamiltonian \<^verbatim>\<open>get_hcore()\<close>.
\<close>

record 'mol deepscf =
  torch_symeig :: "matrix \<Rightarrow> real list"
  torch_autograd_grad :: "(tensor3 list \<Rightarrow> real) \<Rightarrow> tensor3 list \<Rightarrow> tensor3 list"
  self_mol :: 'mol
  self_net :: "tensor3 \<Rightarrow> real"
  self_basis :: "shell list"
  self_shell_sec :: "nat list"
  self_t_proj_ovlp :: tensor3
  self_t_proj_shells :: "tensor3 list"
  self_t_proj_aos :: "tensor5 list"
  self_get_veff0 :: "'mol \<Rightarrow> ndarray \<Rightarrow> ndarray option \<Rightarrow> matrix option \<Rightarrow> int \<Rightarrow> error + matrix"
  self_make_rdm1 :: ndarray
  self_get_hcore :: matrix

text \<open>
  \<^verbatim>\<open>__init__\<close>, given the result of \<^verbatim>\<open>gen_proj_ovlp(mol, basis)\<close>, the overlap tensor
  of shape \<open>[nao, natom, nproj]\<close> that the integral library computes.
\<close>

definition init ::
  "(matrix \<Rightarrow> real list) \<Rightarrow> ((tensor3 list \<Rightarrow> real) \<Rightarrow> tensor3 list \<Rightarrow> tensor3 list) \<Rightarrow>
   ('mol \<Rightarrow> ndarray \<Rightarrow> ndarray option \<Rightarrow> matrix option \<Rightarrow> int \<Rightarrow> error + matrix) \<Rightarrow>
   ndarray \<Rightarrow> matrix \<Rightarrow> 'mol \<Rightarrow> (tensor3 \<Rightarrow> real) \<Rightarrow> shell list \<Rightarrow> tensor3 \<Rightarrow>
   error + 'mol deepscf" where
  "init eig grad veff0 rdm1 hcore mol model basis proj_ovlp =
     (case t_proj_shells basis proj_ovlp of
        Inl e \<Rightarrow> Inl e
      | Inr shells \<Rightarrow>
          (case t_proj_aos shells of
             Inl e \<Rightarrow> Inl e
           | Inr aos \<Rightarrow>
               Inr \<lparr> torch_symeig = eig, torch_autograd_grad = grad, self_mol = mol,
                     self_net = model, self_basis = basis, self_shell_sec = shell_sec basis,
                     self_t_proj_ovlp = proj_ovlp, self_t_proj_shells = shells,
                     self_t_proj_aos = aos, self_get_veff0 = veff0,
                     self_make_rdm1 = rdm1, self_get_hcore = hcore \<rparr>))"

section \<open>Descriptors, correction energy and correction potential\<close>

text \<open>
  \<^verbatim>\<open>torch.einsum('rap,rs,saq->apq', po, t_dm, po)\<close>. The density matrix must have two
  dimensions, as many as its subscripts. The index \<open>r\<close> is bound to the first axis of
  \<open>po\<close> and of \<open>t_dm\<close>, \<open>s\<close> to the second axis of \<open>t_dm\<close> and the first of the
  third operand, \<open>a\<close> to the atom axes: the sizes bound to one index must agree or be
  1, else the contraction raises. A nested list whose rows differ in length is no
  array.
\<close>

definition einsum_rap_rs_saq :: "tensor3 \<Rightarrow> ndarray \<Rightarrow> tensor3 \<Rightarrow> error + tensor3" where
  "einsum_rap_rs_saq po t_dm po' =
     (case t_dm of
        Arr2 D \<Rightarrow>
          if is_matrix (length D) (dim1 D) D
             \<and> broadcastable (length po) (length D) \<and> broadcastable (length po') (dim1 D)
             \<and> broadcastable (dim1 po) (dim1 po')
          then Inr (map (\<lambda>a. map (\<lambda>p. map (\<lambda>q.
                      (\<Sum>r<bsize (length po) (length D). \<Sum>s<bsize (length po') (dim1 D).
                         po ! bidx (length po) r ! bidx (dim1 po) a ! p
                         * D ! bidx (length D) r ! bidx (dim1 D) s
                         * po' ! bidx (length po') s ! bidx (dim1 po') a ! q))
                    [0..<dim2 po']) [0..<dim2 po]) [0..<bsize (dim1 po) (dim1 po')])
          else Inl RuntimeError
      | _ \<Rightarrow> Inl RuntimeError)"

definition proj_dms :: "tensor3 list \<Rightarrow> ndarray \<Rightarrow> error + tensor3 list" where
  "proj_dms shells t_dm = sequence_err (map (\<lambda>po. einsum_rap_rs_saq po t_dm po) shells)"

text \<open>
  \<^verbatim>\<open>torch.cat(proj_eigs, dim=-1)\<close> of tensors \<open>[natom, w]\<close>: the rows of one atom side
  by side. It raises on an empty list and on tensors with different numbers of atoms.
\<close>

definition cat_rows :: "matrix list \<Rightarrow> matrix" where
  "cat_rows Es = map (\<lambda>a. concat (map (\<lambda>E. E ! a) Es)) [0..<length (hd Es)]"

definition torch_cat :: "matrix list \<Rightarrow> error + matrix" where
  "torch_cat Es =
     (if Es = [] \<or> (\<exists>E \<in> set Es. length E \<noteq> length (hd Es)) then Inl RuntimeError
      else Inr (cat_rows Es))"

text \<open>
  The scalar \<^verbatim>\<open>ec = self.net(ceig)\<close> as a function of the list \<^verbatim>\<open>proj_dms\<close>, which
  is what \<^verbatim>\<open>torch.autograd.grad(ec, proj_dms)\<close> differentiates:
  \<^verbatim>\<open>symeig\<close> per atom, \<^verbatim>\<open>cat\<close>, \<^verbatim>\<open>unsqueeze(0)\<close>, \<^verbatim>\<open>net\<close>.
\<close>

definition ec_of_dms :: "(matrix \<Rightarrow> real list) \<Rightarrow> (tensor3 \<Rightarrow> real) \<Rightarrow> tensor3 list \<Rightarrow> real" where
  "ec_of_dms eig model dms = model [cat_rows (map (map eig) dms)]"

text \<open>\<^verbatim>\<open>torch.einsum('rsapq,apq->rs', pao, gdm)\<close>\<close>

definition dim3 :: "'a list list list list \<Rightarrow> nat" where
  "dim3 T = (case T of [] \<Rightarrow> 0 | x # _ \<Rightarrow> dim2 x)"

definition dim4 :: "'a list list list list list \<Rightarrow> nat" where
  "dim4 T = (case T of [] \<Rightarrow> 0 | x # _ \<Rightarrow> dim3 x)"

definition einsum_rsapq_apq :: "tensor5 \<Rightarrow> tensor3 \<Rightarrow> error + matrix" where
  "einsum_rsapq_apq pao gdm =
     (if is_tensor3 (dim2 pao) (dim3 pao) (dim4 pao) gdm
      then Inr (map (\<lambda>r. map (\<lambda>s.
                  (\<Sum>a<dim2 pao. \<Sum>p<dim3 pao. \<Sum>q<dim4 pao. pao ! r ! s ! a ! p ! q * gdm ! a ! p ! q))
                [0..<dim1 pao]) [0..<length pao])
      else Inl RuntimeError)"

text \<open>
  \<^verbatim>\<open>torch.stack(shell_vcs).sum(0)\<close>: the matrices must be of one shape, and there must
  be at least one.
\<close>

definition stack_sum :: "matrix list \<Rightarrow> error + matrix" where
  "stack_sum Vs =
     (if Vs = [] \<or> (\<exists>V \<in> set Vs. \<not> is_matrix (length (hd Vs)) (dim1 (hd Vs)) V)
      then Inl RuntimeError
      else Inr (map (\<lambda>r. map (\<lambda>s. (\<Sum>k<length Vs. Vs ! k ! r ! s))
                 [0..<dim1 (hd Vs)]) [0..<length (hd Vs)]))"

text \<open>
  The descriptor tensor \<^verbatim>\<open>ceig\<close> of \<^verbatim>\<open>t_get_ec\<close>, lines 103 to 107:
  \<^verbatim>\<open>torch.cat(proj_eigs, dim=-1).unsqueeze(0)\<close>, of shape \<open>1 x natoms x nproj\<close>.
\<close>

definition t_ceig :: "'mol deepscf \<Rightarrow> ndarray \<Rightarrow> error + tensor3" where
  "t_ceig slf t_dm =
     (case proj_dms (self_t_proj_shells slf) t_dm of
        Inl e \<Rightarrow> Inl e
      | Inr dms \<Rightarrow>
          (case torch_cat (map (map (torch_symeig slf)) dms) of
             Inl e \<Rightarrow> Inl e
           | Inr c \<Rightarrow> Inr [c]))"

definition t_get_ec :: "'mol deepscf \<Rightarrow> ndarray \<Rightarrow> error + real \<times> matrix" where
  "t_get_ec slf t_dm =
     (case proj_dms (self_t_proj_shells slf) t_dm of
        Inl e \<Rightarrow> Inl e
      | Inr dms \<Rightarrow>
          (case t_ceig slf t_dm of
             Inl e \<Rightarrow> Inl e
           | Inr ceig \<Rightarrow>
               (let ec = self_net slf ceig;
                    grad_dms = torch_autograd_grad slf
                                 (ec_of_dms (torch_symeig slf) (self_net slf)) dms
                in case sequence_err (map (\<lambda>(pao, gdm). einsum_rsapq_apq pao gdm)
                                        (zip (self_t_proj_aos slf) grad_dms)) of
                     Inl e \<Rightarrow> Inl e
                   | Inr shell_vcs \<Rightarrow>
                       (case stack_sum shell_vcs of
                          Inl e \<Rightarrow> Inl e
                        | Inr vc \<Rightarrow> Inr (ec, vc)))))"

definition get_ec :: "'mol deepscf \<Rightarrow> ndarray option \<Rightarrow> error + real \<times> matrix" where
  "get_ec slf dm =
     (let dm = (case dm of None \<Rightarrow> self_make_rdm1 slf | Some d \<Rightarrow> d)
      in t_get_ec slf dm)"

definition make_eig :: "'mol deepscf \<Rightarrow> ndarray option \<Rightarrow> error + matrix" where
  "make_eig slf dm =
     (let dm = (case dm of None \<Rightarrow> self_make_rdm1 slf | Some d \<Rightarrow> d)
      in case proj_dms (self_t_proj_shells slf) dm of
           Inl e \<Rightarrow> Inl e
         | Inr dms \<Rightarrow> torch_cat (map (map (torch_symeig slf)) dms))"

section \<open>Effective potential and energy\<close>

text \<open>
  \<^verbatim>\<open>v0 + vc\<close> on two numpy matrices: the sizes of each axis must agree or be 1.
\<close>

definition np_add :: "matrix \<Rightarrow> matrix \<Rightarrow> error + matrix" where
  "np_add A B =
     (if is_matrix (length A) (dim1 A) A \<and> is_matrix (length B) (dim1 B) B
         \<and> broadcastable (length A) (length B) \<and> broadcastable (dim1 A) (dim1 B)
      then Inr (map (\<lambda>i. map (\<lambda>j.
                  A ! bidx (length A) i ! bidx (dim1 A) j + B ! bidx (length B) i ! bidx (dim1 B) j)
                [0..<bsize (dim1 A) (dim1 B)]) [0..<bsize (length A) (length B)])
      else Inl ValueError)"

definition get_veff ::
  "'mol deepscf \<Rightarrow> 'mol option \<Rightarrow> ndarray option \<Rightarrow> ndarray option \<Rightarrow> tagged option \<Rightarrow> int \<Rightarrow>
   error + tagged" where
  "get_veff slf mol dm dm_last vhf_last hermi =
     (let mol = (case mol of None \<Rightarrow> self_mol slf | Some m \<Rightarrow> m);
          dm = (case dm of None \<Rightarrow> self_make_rdm1 slf | Some d \<Rightarrow> d)
      in if ndim dm \<noteq> 2 then Inl AssertionError
         else
           (let v0_last = (case vhf_last of None \<Rightarrow> None | Some v \<Rightarrow> tag_v0 v)
            in case self_get_veff0 slf mol dm dm_last v0_last hermi of
                 Inl e \<Rightarrow> Inl e
               | Inr v0 \<Rightarrow>
                   (case get_ec slf (Some dm) of
                      Inl e \<Rightarrow> Inl e
                    | Inr (ec, vc) \<Rightarrow>
                        (case np_add v0 vc of
                           Inl e \<Rightarrow> Inl e
                         | Inr vtot \<Rightarrow>
                             Inr \<lparr> arr = vtot, tag_ec = Some ec, tag_v0 = Some v0 \<rparr>))))"

text \<open>
  \<^verbatim>\<open>np.einsum('ij,ji', A, dm)\<close>: \<open>i\<close> is bound to the first axis of \<open>A\<close> and the
  second of \<open>dm\<close>, \<open>j\<close> to the second axis of \<open>A\<close> and the first of \<open>dm\<close>.
\<close>

definition np_einsum_ij_ji :: "matrix \<Rightarrow> ndarray \<Rightarrow> error + real" where
  "np_einsum_ij_ji A dm =
     (case dm of
        Arr2 D \<Rightarrow>
          if is_matrix (length A) (dim1 A) A \<and> is_matrix (length D) (dim1 D) D
             \<and> broadcastable (length A) (dim1 D) \<and> broadcastable (dim1 A) (length D)
          then Inr (\<Sum>i<bsize (length A) (dim1 D). \<Sum>j<bsize (dim1 A) (length D).
                      A ! bidx (length A) i ! bidx (dim1 A) j * D ! bidx (length D) j ! bidx (dim1 D) i)
          else Inl ValueError
      | _ \<Rightarrow> Inl ValueError)"

definition energy_elec ::
  "'mol deepscf \<Rightarrow> ndarray option \<Rightarrow> matrix option \<Rightarrow> tagged option \<Rightarrow> error + real \<times> real" where
  "energy_elec slf dm h1e vhf =
     (let dm = (case dm of None \<Rightarrow> self_make_rdm1 slf | Some d \<Rightarrow> d);
          h1e = (case h1e of None \<Rightarrow> self_get_hcore slf | Some h \<Rightarrow> h);
          vhf = (case vhf of
                   None \<Rightarrow> get_veff slf None (Some dm) None None 1
                 | Some v \<Rightarrow>
                     (case tag_ec v of
                        None \<Rightarrow> get_veff slf None (Some dm) None None 1
                      | Some x \<Rightarrow> Inr v))
      in case vhf of
           Inl e \<Rightarrow> Inl e
         | Inr vhf \<Rightarrow>
             (case tag_ec vhf of
                None \<Rightarrow> Inl AttributeError
              | Some ec \<Rightarrow>
                  (case np_einsum_ij_ji h1e dm of
                     Inl e \<Rightarrow> Inl e
                   | Inr e1 \<Rightarrow>
                       (case tag_v0 vhf of
                          None \<Rightarrow> Inl AttributeError
                        | Some v0 \<Rightarrow>
                            (case np_einsum_ij_ji v0 dm of
                               Inl e \<Rightarrow> Inl e
                             | Inr c \<Rightarrow>
                                 (let e_coul = c * (1 / 2)
                                  in Inr (e1 + e_coul + ec, e_coul + ec)))))))"

section \<open>Matrix notions of the specification\<close>

text \<open>
  The specification speaks of matrix products, transposes, traces, symmetric matrices
  and eigenvalues; the code writes index contractions. These are the specification's
  notions, to compare the contractions with.
\<close>

definition mat_mul :: "matrix \<Rightarrow> matrix \<Rightarrow> matrix" where
  "mat_mul A B =
     map (\<lambda>i. map (\<lambda>j. (\<Sum>k<length B. A ! i ! k * B ! k ! j)) [0..<dim1 B]) [0..<length A]"

definition mat_transpose :: "matrix \<Rightarrow> matrix" where
  "mat_transpose A = map (\<lambda>j. map (\<lambda>i. A ! i ! j) [0..<length A]) [0..<dim1 A]"

definition trace :: "matrix \<Rightarrow> real" where
  "trace A = (\<Sum>i<length A. A ! i ! i)"

definition symmetric :: "matrix \<Rightarrow> bool" where
  "symmetric A \<longleftrightarrow>
     is_matrix (length A) (length A) A \<and> (\<forall>i<length A. \<forall>j<length A. A ! i ! j = A ! j ! i)"

text \<open>The sum of a list of \<open>n\<close> by \<open>m\<close> matrices.\<close>

definition mat_sum :: "nat \<Rightarrow> nat \<Rightarrow> matrix list \<Rightarrow> matrix" where
  "mat_sum n m As = map (\<lambda>i. map (\<lambda>j. (\<Sum>k<length As. As ! k ! i ! j)) [0..<m]) [0..<n]"

text \<open>
  \<open>P_a\<close>: the projection coefficients of atom \<open>a\<close> in a block \<open>po\<close> of shape
  \<open>[nao, natom, w]\<close>, the \<open>nao\<close> by \<open>w\<close> matrix \<^verbatim>\<open>po[:, a, :]\<close>.
\<close>

definition atom_slice :: "tensor3 \<Rightarrow> nat \<Rightarrow> matrix" where
  "atom_slice po a = map (\<lambda>M. M ! a) po"

text \<open>The specification's projected density block \<open>M_a = P_a^T D P_a\<close>.\<close>

definition projected_density :: "tensor3 \<Rightarrow> matrix \<Rightarrow> nat \<Rightarrow> matrix" where
  "projected_density po D a =
     mat_mul (mat_mul (mat_transpose (atom_slice po a)) D) (atom_slice po a)"

text \<open>
  The specification's shell contribution \<open>V_shell = \<Sum>a. P_a (dE/dM_a) P_a^T\<close>, for the
  gradient \<open>gdm\<close> of shape \<open>[natom, w, w]\<close>.
\<close>

definition shell_potential :: "tensor3 \<Rightarrow> tensor3 \<Rightarrow> matrix" where
  "shell_potential po gdm =
     mat_sum (length po) (length po)
       (map (\<lambda>a. mat_mul (mat_mul (atom_slice po a) (gdm ! a)) (mat_transpose (atom_slice po a)))
          [0..<dim1 po])"

text \<open>
  The shell blocks in the words of the specification: one block per shell \<open>l\<close>, of
  width \<open>(2l+1)\<close> times the number of zeta functions of the shell.
\<close>

definition spec_shell_widths :: "shell list \<Rightarrow> nat list" where
  "spec_shell_widths basis = map (\<lambda>b. (2 * fst b + 1) * length (snd b)) basis"

definition spec_shell_blocks :: "shell list \<Rightarrow> tensor3 \<Rightarrow> error + tensor3 list" where
  "spec_shell_blocks basis t_proj_ovlp = torch_split t_proj_ovlp (spec_shell_widths basis)"

text \<open>
  What the documentation of \<^verbatim>\<open>torch.symeig\<close> promises for a symmetric matrix: the
  eigenvalues, in ascending order. \<open>xs\<close> are the eigenvalues of \<open>M\<close> when an
  orthogonal \<open>V\<close> has \<open>M V = V diag(xs)\<close>.
\<close>

definition identity_mat :: "nat \<Rightarrow> matrix" where
  "identity_mat n = map (\<lambda>i. map (\<lambda>j. if i = j then 1 else 0) [0..<n]) [0..<n]"

definition diag_mat :: "real list \<Rightarrow> matrix" where
  "diag_mat xs = map (\<lambda>i. map (\<lambda>j. if i = j then xs ! i else 0) [0..<length xs]) [0..<length xs]"

definition sorted_eigenvalues :: "matrix \<Rightarrow> real list \<Rightarrow> bool" where
  "sorted_eigenvalues M xs \<longleftrightarrow>
     length xs = length M \<and> sorted xs \<and>
     (\<exists>V. is_matrix (length M) (length M) V
        \<and> mat_mul (mat_transpose V) V = identity_mat (length M)
        \<and> mat_mul M V = mat_mul V (diag_mat xs))"

definition symeig_contract :: "nat \<Rightarrow> (matrix \<Rightarrow> real list) \<Rightarrow> bool" where
  "symeig_contract w eig \<longleftrightarrow>
     (\<forall>M. length M \<le> w \<and> symmetric M \<longrightarrow> sorted_eigenvalues M (eig M))"

text \<open>
  A gradient of the scalar \<open>F\<close> at the tensors \<open>Ms\<close>, which is what
  \<^verbatim>\<open>torch.autograd.grad(ec, proj_dms)\<close> promises of a scalar that is differentiable
  in every entry: tensors \<open>G\<close> of the shapes of \<open>Ms\<close>, which give the derivative of
  the scalar along every direction \<open>H\<close> as the sum of the products of the entries of
  \<open>G\<close> and \<open>H\<close>.
\<close>

definition same_shape :: "tensor3 list \<Rightarrow> tensor3 list \<Rightarrow> bool" where
  "same_shape G H \<longleftrightarrow> map (map (map length)) G = map (map (map length)) H"

definition add_dms :: "tensor3 list \<Rightarrow> tensor3 list \<Rightarrow> tensor3 list" where
  "add_dms Ms Hs = map2 (map2 (map2 (map2 (+)))) Ms Hs"

definition scale_dms :: "real \<Rightarrow> tensor3 list \<Rightarrow> tensor3 list" where
  "scale_dms t Hs = map (map (map (map (\<lambda>x. t * x)))) Hs"

definition inner_dms :: "tensor3 list \<Rightarrow> tensor3 list \<Rightarrow> real" where
  "inner_dms G H =
     (\<Sum>k<length G. \<Sum>a<length (G ! k). \<Sum>p<length (G ! k ! a). \<Sum>q<length (G ! k ! a ! p).
        G ! k ! a ! p ! q * H ! k ! a ! p ! q)"

definition is_gradient :: "(tensor3 list \<Rightarrow> real) \<Rightarrow> tensor3 list \<Rightarrow> tensor3 list \<Rightarrow> bool" where
  "is_gradient F Ms G \<longleftrightarrow>
     same_shape G Ms \<and>
     (\<forall>H. same_shape H Ms \<longrightarrow>
        ((\<lambda>t. F (add_dms Ms (scale_dms t H))) has_real_derivative inner_dms G H) (at 0))"

text \<open>
  What the specification says of the gradient through the eigendecomposition: it is
  symmetric where the projected density blocks are.
\<close>

definition symmetric_dms :: "tensor3 list \<Rightarrow> bool" where
  "symmetric_dms Ms \<longleftrightarrow> (\<forall>M \<in> set Ms. \<forall>B \<in> set M. symmetric B)"




text \<open>
  An engine as \<^verbatim>\<open>__init__\<close> builds it, for a projection tensor of shape
  \<open>[nao, natm, nproj]\<close> with no empty axis: the shell sections come from the basis,
  the blocks from the split, the products of the blocks from the blocks.
\<close>

definition constructed :: "nat \<Rightarrow> nat \<Rightarrow> 'mol deepscf \<Rightarrow> bool" where
  "constructed nao natm slf \<longleftrightarrow>
     0 < nao \<and> 0 < natm \<and> 0 < dim2 (self_t_proj_ovlp slf)
     \<and> is_tensor3 nao natm (dim2 (self_t_proj_ovlp slf)) (self_t_proj_ovlp slf)
     \<and> self_shell_sec slf = shell_sec (self_basis slf)
     \<and> t_proj_shells (self_basis slf) (self_t_proj_ovlp slf) = Inr (self_t_proj_shells slf)
     \<and> t_proj_aos (self_t_proj_shells slf) = Inr (self_t_proj_aos slf)"

text \<open>The values of the three contractions on operands that fit.\<close>

definition proj_block :: "tensor3 \<Rightarrow> matrix \<Rightarrow> tensor3" where
  "proj_block po D =
     map (\<lambda>a. map (\<lambda>p. map (\<lambda>q.
        (\<Sum>r<length po. \<Sum>s<length po. po ! r ! a ! p * D ! r ! s * po ! s ! a ! q))
      [0..<dim2 po]) [0..<dim2 po]) [0..<dim1 po]"

definition ao_block :: "tensor3 \<Rightarrow> tensor5" where
  "ao_block po =
     map (\<lambda>r. map (\<lambda>s. map (\<lambda>a. map (\<lambda>p. map (\<lambda>q. po ! r ! a ! p * po ! s ! a ! q)
       [0..<dim2 po]) [0..<dim2 po]) [0..<dim1 po]) [0..<length po]) [0..<length po]"

definition vc_block :: "tensor3 \<Rightarrow> tensor3 \<Rightarrow> matrix" where
  "vc_block po gdm =
     map (\<lambda>r. map (\<lambda>s.
        (\<Sum>a<dim1 po. \<Sum>p<dim2 po. \<Sum>q<dim2 po. po ! r ! a ! p * po ! s ! a ! q * gdm ! a ! p ! q))
      [0..<length po]) [0..<length po]"


section \<open>A small engine\<close>

text \<open>
  An engine to run the operations on: two orbitals, one atom, one shell \<open>l = 0\<close> with
  two radial functions, hence two blocks of width 1. The eigenvalue of a matrix of
  size 1 is its entry. The model is the one of the source's own test,
  \<^verbatim>\<open>1e-3 * torch.sum(eigs, axis=(1,2))\<close>, whose gradient with respect to every entry
  of a block of size 1 is \<open>1e-3\<close>.
\<close>

definition symeig1 :: "matrix \<Rightarrow> real list" where
  "symeig1 M = map (\<lambda>i. M ! i ! i) [0..<length M]"

definition test_model :: "tensor3 \<Rightarrow> real" where
  "test_model eigs = (1 / 1000) * (\<Sum>b\<leftarrow>eigs. \<Sum>row\<leftarrow>b. sum_list row)"

definition test_grad :: "(tensor3 list \<Rightarrow> real) \<Rightarrow> tensor3 list \<Rightarrow> tensor3 list" where
  "test_grad F Ms = map (map (map (map (\<lambda>x. 1 / 1000)))) Ms"

definition test_veff0 ::
  "unit \<Rightarrow> ndarray \<Rightarrow> ndarray option \<Rightarrow> matrix option \<Rightarrow> int \<Rightarrow> error + matrix" where
  "test_veff0 mol dm dm_last v0_last hermi = Inr [[1, 1], [1, 1]]"

definition test_basis :: "shell list" where
  "test_basis = [(0, [[1, 1, 0], [1 / 2, 0, 1]])]"

definition test_engine :: "unit deepscf" where
  "test_engine =
     \<lparr> torch_symeig = symeig1, torch_autograd_grad = test_grad, self_mol = (),
       self_net = test_model, self_basis = test_basis, self_shell_sec = [1, 1],
       self_t_proj_ovlp = [[[1, 0]], [[2, 1]]],
       self_t_proj_shells = [[[[1]], [[2]]], [[[0]], [[1]]]],
       self_t_proj_aos = [[[[[[1]]], [[[2]]]], [[[[2]]], [[[4]]]]],
                          [[[[[0]]], [[[0]]]], [[[[0]]], [[[1]]]]]],
       self_get_veff0 = test_veff0,
       self_make_rdm1 = Arr2 [[1, 2], [2, 3]], self_get_hcore = [[1, 0], [0, 1]] \<rparr>"

text \<open>
  The same engine with a model that always evaluates to zero, whose gradient is zero.
\<close>

definition zero_model :: "tensor3 \<Rightarrow> real" where
  "zero_model eigs = 0"

definition zero_grad :: "(tensor3 list \<Rightarrow> real) \<Rightarrow> tensor3 list \<Rightarrow> tensor3 list" where
  "zero_grad F Ms = map (map (map (map (\<lambda>x. 0)))) Ms"

definition zero_engine :: "unit deepscf" where
  "zero_engine = test_engine \<lparr> torch_autograd_grad := zero_grad, self_net := zero_model \<rparr>"

section \<open>An engine with a block of width 3\<close>

text \<open>
  A second engine, whose block is wider than 1: two orbitals, one atom, one shell
  \<open>l = 1\<close> with one radial function, hence one block of width 3. The first two
  projectors of the atom are the two orbitals and the third overlaps with neither, so
  that the projected density block of \<open>D\<close> is \<open>D\<close> with a third row and column of
  zeros.

  \<^verbatim>\<open>torch.symeig\<close> reads the upper triangle of its argument (\<^verbatim>\<open>upper=True\<close> is the
  default): its eigenvalues are those of the symmetric matrix \<open>upper_sym M\<close>. For a
  matrix of width 3 whose third row and column vanish off the diagonal, as the blocks
  of this engine do, they are \<open>(a + c) / 2 \<plusminus> sqrt (((a - c) / 2)\<^sup>2 + b\<^sup>2)\<close> and
  the third diagonal entry, for the upper triangle \<open>a, b, c\<close> of the first two rows
  and columns.

  The model is the sum of the squares of the descriptors. Its gradient with respect to
  the eigenvalues \<open>x\<close> is \<open>2 x\<close>, and the gradient that the backward pass of
  \<^verbatim>\<open>torch.symeig\<close> makes of it, \<open>V diag(2 x) V\<^sup>T\<close> for the eigenvectors \<open>V\<close>, is
  twice the symmetric matrix that was read.
\<close>

definition upper_sym :: "matrix \<Rightarrow> matrix" where
  "upper_sym M =
     map (\<lambda>i. map (\<lambda>j. if i \<le> j then M ! i ! j else M ! j ! i) [0..<length M]) [0..<length M]"

definition symeig3 :: "matrix \<Rightarrow> real list" where
  "symeig3 M =
     (let U = upper_sym M;
          m = (U ! 0 ! 0 + U ! 1 ! 1) / 2;
          d = sqrt (((U ! 0 ! 0 - U ! 1 ! 1) / 2)\<^sup>2 + (U ! 0 ! 1)\<^sup>2)
      in sort [m - d, m + d, U ! 2 ! 2])"

definition square_model :: "tensor3 \<Rightarrow> real" where
  "square_model eigs = (\<Sum>b\<leftarrow>eigs. \<Sum>row\<leftarrow>b. \<Sum>x\<leftarrow>row. x\<^sup>2)"

definition square_grad :: "(tensor3 list \<Rightarrow> real) \<Rightarrow> tensor3 list \<Rightarrow> tensor3 list" where
  "square_grad F Ms = map (map (\<lambda>M. map (map (\<lambda>x. 2 * x)) (upper_sym M))) Ms"



section \<open>Operands that fit\<close>

lemma bsize_same [simp]: "bsize n n = n"
  by (simp add: bsize_def)

lemma broadcastable_same [simp]: "broadcastable n n"
  by (simp add: broadcastable_def)

lemma bidx_less: "i < n \<Longrightarrow> bidx n i = i"
  by (simp add: bidx_def)

lemma dim1_matrix: "is_matrix n m A \<Longrightarrow> 0 < n \<Longrightarrow> dim1 A = m"
  by (cases A) (simp_all add: is_matrix_def dim1_def)

lemma einsum_rap_rs_saq_fit:
  assumes "is_matrix (length po) (length po) D" and "0 < length po"
  shows "einsum_rap_rs_saq po (Arr2 D) po
       = Inr (map (\<lambda>a. map (\<lambda>p. map (\<lambda>q.
            (\<Sum>r<length po. \<Sum>s<length po. po ! r ! a ! p * D ! r ! s * po ! s ! a ! q))
          [0..<dim2 po]) [0..<dim2 po]) [0..<dim1 po])"
proof -
  have l: "length D = length po" and d: "dim1 D = length po"
    using assms dim1_matrix [OF assms] by (simp_all add: is_matrix_def)
  have D: "is_matrix (length D) (dim1 D) D"
    using assms(1) by (simp add: l d)
  show ?thesis
    unfolding einsum_rap_rs_saq_def using D
    by (auto simp: l d bidx_less intro!: sum.cong)
qed

lemma np_add_fit:
  assumes "is_matrix n m A" and "is_matrix n m B" and "0 < n"
  shows "np_add A B = Inr (map (\<lambda>i. map (\<lambda>j. A ! i ! j + B ! i ! j) [0..<m]) [0..<n])"
proof -
  have l: "length A = n" "length B = n" and d: "dim1 A = m" "dim1 B = m"
    using assms dim1_matrix [OF assms(1,3)] dim1_matrix [OF assms(2,3)]
    by (simp_all add: is_matrix_def)
  show ?thesis
    unfolding np_add_def using assms(1,2)
    by (simp add: l d bidx_less cong: map_cong)
qed

lemma np_einsum_ij_ji_fit:
  assumes "is_matrix n m A" and "is_matrix m n D" and "0 < n" and "0 < m"
  shows "np_einsum_ij_ji A (Arr2 D) = Inr (\<Sum>i<n. \<Sum>j<m. A ! i ! j * D ! j ! i)"
proof -
  have l: "length A = n" "length D = m" and d: "dim1 A = m" "dim1 D = n"
    using assms dim1_matrix [OF assms(1,3)] dim1_matrix [OF assms(2,4)]
    by (simp_all add: is_matrix_def)
  show ?thesis
    unfolding np_einsum_ij_ji_def using assms(1,2)
    by (auto simp: l d bidx_less intro!: sum.cong)
qed

section \<open>Shell partition\<close>

lemma length_split_sizes: "length (split_sizes ns xs) = length ns"
  by (induction ns arbitrary: xs) auto

lemma concat_split_sizes:
  "sum_list ns = length xs \<Longrightarrow> concat (split_sizes ns xs) = xs"
proof (induction ns arbitrary: xs)
  case Nil
  then show ?case by simp
next
  case (Cons n ns)
  have "sum_list ns = length (drop n xs)"
    using Cons.prems by simp
  then have "concat (split_sizes ns (drop n xs)) = drop n xs"
    by (rule Cons.IH)
  then show ?case by simp
qed

lemma map_length_split_sizes:
  "sum_list ns \<le> length xs \<Longrightarrow> map length (split_sizes ns xs) = ns"
proof (induction ns arbitrary: xs)
  case Nil
  then show ?case by simp
next
  case (Cons n ns)
  have "sum_list ns \<le> length (drop n xs)"
    using Cons.prems by simp
  then have "map length (split_sizes ns (drop n xs)) = ns"
    by (rule Cons.IH)
  moreover have "n \<le> length xs"
    using Cons.prems by simp
  ultimately show ?case by simp
qed

lemma sum_list_shell_sec:
  "sum_list (shell_sec basis) = (\<Sum>b\<leftarrow>basis. (2 * fst b + 1) * length (snd b))"
  by (induction basis) (simp_all add: shell_sec_def sum_list_replicate mult.commute)

lemma length_shell_sec: "length (shell_sec basis) = (\<Sum>b\<leftarrow>basis. length (snd b))"
  by (induction basis) (simp_all add: shell_sec_def)

lemma dim2_tensor3:
  "is_tensor3 n0 n1 n2 T \<Longrightarrow> 0 < n0 \<Longrightarrow> 0 < n1 \<Longrightarrow> dim2 T = n2"
  by (cases T; cases "hd T") (auto simp: is_tensor3_def is_matrix_def dim2_def dim1_def)

lemma tensor3_row:
  assumes "is_tensor3 n0 n1 n2 T" and "r < n0" and "a < n1"
  shows "length (T ! r ! a) = n2"
proof -
  have "T ! r \<in> set T"
    using assms by (simp add: is_tensor3_def)
  then have m: "is_matrix n1 n2 (T ! r)"
    using assms by (simp add: is_tensor3_def)
  then have "T ! r ! a \<in> set (T ! r)"
    using assms by (simp add: is_matrix_def)
  then show ?thesis
    using m by (simp add: is_matrix_def)
qed

lemma split_block_width:
  assumes "is_tensor3 n0 n1 n2 T" and "0 < n0" and "0 < n1"
    and "sum_list sizes = n2" and "k < length sizes"
  shows "dim2 (map (map (\<lambda>row. split_sizes sizes row ! k)) T) = sizes ! k"
proof -
  obtain M T' where T: "T = M # T'"
    using assms(1,2) by (cases T) (auto simp: is_tensor3_def)
  have "is_matrix n1 n2 M"
    using assms(1) by (simp add: T is_tensor3_def)
  then obtain row M' where M: "M = row # M'" and row: "length row = n2"
    using assms(3) by (cases M) (auto simp: is_matrix_def)
  have "map length (split_sizes sizes row) = sizes"
    using assms(4) row by (simp add: map_length_split_sizes)
  then have "length (split_sizes sizes row ! k) = sizes ! k"
    using assms(5) by (metis length_split_sizes nth_map)
  then show ?thesis
    by (simp add: T M dim2_def dim1_def)
qed

text \<open>
  C2, as the spec states it: one block per shell \<open>l\<close>, of width \<open>(2l+1)\<close> times the
  number of zeta functions of the shell. The code builds \<^verbatim>\<open>shell_sec\<close> with one
  entry \<open>2l+1\<close> per radial function (\<^verbatim>\<open>[1,1,1,...,3,3,3,...,5,5,5,...]\<close>, "different
  r and l"), so a shell \<open>l = 0\<close> with two radial functions is cut into two blocks of
  width 1, not into one block of width 2.
\<close>

theorem shell_partition_counterexample:
  "t_proj_shells [(0, [[1, 1, 0], [1 / 2, 0, 1]])] [[[1, 2]]] = Inr [[[[1]]], [[[2]]]]
   \<and> length [[[[1::real]]], [[[2]]]] \<noteq> length [(0::nat, [[1::real, 1, 0], [1 / 2, 0, 1]])]
   \<and> dim2 [[[1::real]]] \<noteq> (2 * 0 + 1) * length [[1::real, 1, 0], [1 / 2, 0, 1]]"
  by (simp add: t_proj_shells_def torch_split_def shell_sec_def dim2_def dim1_def)

text \<open>
  C2, amended: the projection tensor is split along its last axis into one contiguous
  block per radial function of each shell. A shell with angular momentum \<open>l\<close> and \<open>n\<close>
  radial functions gives \<open>n\<close> consecutive blocks of width \<open>2l+1\<close> each (together
  \<open>(2l+1) * n\<close> columns), the shells in the order of the basis; put side by side in
  their order the blocks give back the tensor. The split fails when the widths do not
  sum to the size of the last axis.
\<close>

theorem shell_partition:
  assumes "is_tensor3 nao natm nproj P" and "0 < nao" and "0 < natm"
  shows "(sum_list (shell_sec basis) \<noteq> nproj \<longrightarrow> t_proj_shells basis P = Inl RuntimeError)
    \<and> (sum_list (shell_sec basis) = nproj \<longrightarrow>
        (\<exists>blocks. t_proj_shells basis P = Inr blocks
          \<and> length blocks = (\<Sum>b\<leftarrow>basis. length (snd b))
          \<and> map dim2 blocks
              = concat (map (\<lambda>b. replicate (length (snd b)) (2 * fst b + 1)) basis)
          \<and> sum_list (map dim2 blocks) = (\<Sum>b\<leftarrow>basis. (2 * fst b + 1) * length (snd b))
          \<and> (\<forall>r<nao. \<forall>a<natm. concat (map (\<lambda>B. B ! r ! a) blocks) = P ! r ! a)))"
proof (intro conjI impI)
  assume "sum_list (shell_sec basis) \<noteq> nproj"
  then show "t_proj_shells basis P = Inl RuntimeError"
    using assms by (simp add: t_proj_shells_def torch_split_def dim2_tensor3)
next
  assume sum: "sum_list (shell_sec basis) = nproj"
  define sizes where "sizes = shell_sec basis"
  define blocks where
    "blocks = map (\<lambda>k. map (map (\<lambda>row. split_sizes sizes row ! k)) P) [0..<length sizes]"
  have res: "t_proj_shells basis P = Inr blocks"
    using assms sum
    by (simp add: t_proj_shells_def torch_split_def dim2_tensor3 blocks_def sizes_def)
  have len: "length blocks = (\<Sum>b\<leftarrow>basis. length (snd b))"
    by (simp add: blocks_def sizes_def length_shell_sec)
  have widths: "map dim2 blocks = sizes"
  proof (rule nth_equalityI)
    show "length (map dim2 blocks) = length sizes"
      by (simp add: blocks_def)
  next
    fix k assume "k < length (map dim2 blocks)"
    then have k: "k < length sizes"
      by (simp add: blocks_def)
    then show "map dim2 blocks ! k = sizes ! k"
      using split_block_width [OF assms, of sizes k] sum
      by (simp add: blocks_def sizes_def)
  qed
  have total: "sum_list (map dim2 blocks) = (\<Sum>b\<leftarrow>basis. (2 * fst b + 1) * length (snd b))"
    by (simp add: widths sizes_def sum_list_shell_sec)
  have rows: "\<forall>r<nao. \<forall>a<natm. concat (map (\<lambda>B. B ! r ! a) blocks) = P ! r ! a"
  proof (intro allI impI)
    fix r a assume r: "r < nao" and a: "a < natm"
    have lr: "length P = nao" and la: "length (P ! r) = natm"
      using assms(1) r nth_mem [of r P] by (auto simp: is_tensor3_def is_matrix_def)
    have "map (\<lambda>B. B ! r ! a) blocks
        = map (\<lambda>k. split_sizes sizes (P ! r ! a) ! k) [0..<length sizes]"
      using r a lr la by (simp add: blocks_def)
    also have "\<dots> = split_sizes sizes (P ! r ! a)"
      using map_nth [of "split_sizes sizes (P ! r ! a)"] by (simp add: length_split_sizes)
    finally show "concat (map (\<lambda>B. B ! r ! a) blocks) = P ! r ! a"
      using tensor3_row [OF assms(1) r a] sum by (simp add: concat_split_sizes sizes_def)
  qed
  show "\<exists>blocks. t_proj_shells basis P = Inr blocks
          \<and> length blocks = (\<Sum>b\<leftarrow>basis. length (snd b))
          \<and> map dim2 blocks
              = concat (map (\<lambda>b. replicate (length (snd b)) (2 * fst b + 1)) basis)
          \<and> sum_list (map dim2 blocks) = (\<Sum>b\<leftarrow>basis. (2 * fst b + 1) * length (snd b))
          \<and> (\<forall>r<nao. \<forall>a<natm. concat (map (\<lambda>B. B ! r ! a) blocks) = P ! r ! a)"
    using res len widths total rows unfolding sizes_def shell_sec_def by blast
qed

theorem shell_partition_witness:
  "\<exists>blocks. t_proj_shells [(0, [[1, 1, 0], [1 / 2, 0, 1]])] [[[1, 2]]] = Inr blocks
      \<and> length blocks = Suc (Suc 0) \<and> map dim2 blocks = [1, 1]
      \<and> sum_list (map dim2 blocks) = Suc (Suc 0)
      \<and> concat (map (\<lambda>B. B ! 0 ! 0) blocks) = [1, 2]"
  using shell_partition [of 1 1 2 "[[[1, 2]]]" "[(0, [[1, 1, 0], [1 / 2, 0, 1]])]"]
  by (simp add: is_tensor3_def is_matrix_def shell_sec_def)

section \<open>Energy decomposition\<close>

lemma dim1_square: "is_matrix n n A \<Longrightarrow> dim1 A = n"
  by (cases A) (auto simp: is_matrix_def dim1_def)

lemma einsum_ij_ji_trace:
  assumes "is_matrix n n A" and "is_matrix n n D"
  shows "np_einsum_ij_ji A (Arr2 D) = Inr (trace (mat_mul D A))"
proof -
  have lA: "length A = n" and lD: "length D = n"
    using assms by (simp_all add: is_matrix_def)
  have dA: "dim1 A = n"
    using assms(1) by (rule dim1_square)
  have "(\<Sum>i<n. \<Sum>j<n. A ! i ! j * D ! j ! i) = (\<Sum>j<n. \<Sum>i<n. A ! i ! j * D ! j ! i)"
    by (rule sum.swap)
  also have "\<dots> = (\<Sum>j<n. \<Sum>i<n. D ! j ! i * A ! i ! j)"
    by (simp add: mult.commute)
  also have "\<dots> = trace (mat_mul D A)"
    by (simp add: trace_def mat_mul_def lA lD dA)
  finally have sum: "(\<Sum>i<n. \<Sum>j<n. A ! i ! j * D ! j ! i) = trace (mat_mul D A)" .
  show ?thesis
  proof (cases "n = 0")
    case True
    then show ?thesis
      using lA lD
      by (simp add: np_einsum_ij_ji_def trace_def mat_mul_def is_matrix_def dim1_def bsize_def)
  next
    case False
    then show ?thesis
      using np_einsum_ij_ji_fit [OF assms] sum by simp
  qed
qed

lemma energy_elec_tagged:
  assumes "is_matrix n n D" and "is_matrix n n H" and "is_matrix n n V0"
    and "tag_ec vhf = Some Ec" and "tag_v0 vhf = Some V0"
  shows "energy_elec slf (Some (Arr2 D)) (Some H) (Some vhf)
       = Inr (trace (mat_mul D H) + trace (mat_mul D V0) * (1 / 2) + Ec,
              trace (mat_mul D V0) * (1 / 2) + Ec)"
  using assms
  by (simp add: energy_elec_def Let_def einsum_ij_ji_trace [of n])

lemma get_veff_tagged:
  assumes "get_veff slf mol dm dm_last vhf_last hermi = Inr v"
  shows "\<exists>Ec V0. tag_ec v = Some Ec \<and> tag_v0 v = Some V0"
  using assms
  by (auto simp: get_veff_def Let_def split: if_splits sum.splits prod.splits)

lemma energy_elec_untagged:
  assumes "vhf = None \<or> (\<exists>u. vhf = Some u \<and> tag_ec u = None)"
  shows "energy_elec slf (Some dm) h1e vhf
       = (case get_veff slf None (Some dm) None None 1 of
            Inl e \<Rightarrow> Inl e
          | Inr v \<Rightarrow> energy_elec slf (Some dm) h1e (Some v))"
proof (cases "get_veff slf None (Some dm) None None 1")
  case (Inl e)
  then show ?thesis
    using assms by (auto simp: energy_elec_def)
next
  case (Inr v)
  then obtain Ec where "tag_ec v = Some Ec"
    using get_veff_tagged by blast
  then show ?thesis
    using assms Inr by (auto simp: energy_elec_def)
qed

text \<open>
  C5: given the density matrix \<open>D\<close>, the core Hamiltonian \<open>H\<close> and a potential tagged
  with the correction energy \<open>Ec\<close> and the baseline potential \<open>V0\<close>, the energy
  decomposition returns the total electronic energy \<open>0.5 trace(D V0) + trace(D H) + Ec\<close>
  and the component \<open>0.5 trace(D V0) + Ec\<close>. \<open>Ec\<close> is the tag: the result is the same
  for every engine, whose model and baseline solver are not consulted.
\<close>

theorem energy_decomposition:
  assumes "is_matrix n n D" and "is_matrix n n H" and "is_matrix n n V0"
    and "tag_ec vhf = Some Ec" and "tag_v0 vhf = Some V0"
  shows "energy_elec slf (Some (Arr2 D)) (Some H) (Some vhf)
       = Inr (0.5 * trace (mat_mul D V0) + trace (mat_mul D H) + Ec,
              0.5 * trace (mat_mul D V0) + Ec)"
  using energy_elec_tagged [OF assms, of slf] by simp

lemma test_engine_init:
  "init symeig1 test_grad test_veff0 (Arr2 [[1, 2], [2, 3]]) [[1, 0], [0, 1]] () test_model
     test_basis [[[1, 0]], [[2, 1]]] = Inr test_engine"
  by (simp add: init_def t_proj_shells_def torch_split_def shell_sec_def test_basis_def
      dim2_def dim1_def t_proj_aos_def einsum_rap_saq_def test_engine_def)

lemma test_engine_get_ec:
  "t_get_ec test_engine (Arr2 [[1, 2], [2, 3]])
     = Inr (3 / 125, [[1 / 1000, 1 / 500], [1 / 500, 1 / 200]])"
  by (simp add: test_engine_def t_get_ec_def t_ceig_def proj_dms_def einsum_rap_rs_saq_def broadcastable_def bsize_def bidx_def
      is_matrix_def is_tensor3_def dim1_def dim2_def dim3_def dim4_def torch_cat_def
      cat_rows_def symeig1_def test_model_def test_grad_def ec_of_dms_def
      einsum_rsapq_apq_def stack_sum_def)

lemma test_engine_get_veff:
  "get_veff test_engine None None None None 1
     = Inr \<lparr> arr = [[1001 / 1000, 501 / 500], [501 / 500, 201 / 200]],
             tag_ec = Some (3 / 125), tag_v0 = Some [[1, 1], [1, 1]] \<rparr>"
proof -
  have "self_make_rdm1 test_engine = Arr2 [[1, 2], [2, 3]]"
    and "self_get_veff0 test_engine = test_veff0"
    by (simp_all add: test_engine_def)
  then show ?thesis
    by (simp add: get_veff_def get_ec_def test_engine_get_ec test_veff0_def np_add_def
        is_matrix_def dim1_def bsize_def bidx_def)
qed

theorem energy_decomposition_witness:
  "energy_elec test_engine (Some (Arr2 [[1, 2], [2, 3]])) (Some [[1, 0], [0, 1]])
     (Some \<lparr> arr = [[0, 0], [0, 0]], tag_ec = Some 7, tag_v0 = Some [[1, 1], [1, 1]] \<rparr>)
   = Inr (15, 11)"
  using energy_decomposition [of 2 "[[1, 2], [2, 3]]" "[[1, 0], [0, 1]]" "[[1, 1], [1, 1]]"
      "\<lparr> arr = [[0, 0], [0, 0]], tag_ec = Some 7, tag_v0 = Some [[1, 1], [1, 1]] \<rparr>" 7
      test_engine]
  by (simp add: is_matrix_def trace_def mat_mul_def dim1_def)

section \<open>The descriptors of the two paths\<close>

text \<open>
  C10: \<^verbatim>\<open>make_eig\<close> returns the descriptor tensor that \<^verbatim>\<open>t_get_ec\<close> builds as
  \<^verbatim>\<open>ceig\<close> and passes to the model, without the leading batch axis: both fail
  together, and when they return, \<^verbatim>\<open>ceig\<close> is the one-element batch of the result of
  \<^verbatim>\<open>make_eig\<close>, on which the correction energy is evaluated.
\<close>

theorem descriptors_agree:
  "t_ceig slf dm = (case make_eig slf (Some dm) of Inl e \<Rightarrow> Inl e | Inr t \<Rightarrow> Inr [t])
   \<and> (\<forall>ec vc. t_get_ec slf dm = Inr (ec, vc) \<longrightarrow>
        (\<exists>t. make_eig slf (Some dm) = Inr t \<and> ec = self_net slf [t]))"
  by (auto simp: t_ceig_def make_eig_def t_get_ec_def Let_def split: sum.splits)

theorem descriptors_agree_witness:
  "t_ceig test_engine (Arr2 [[1, 2], [2, 3]]) = Inr [[[21, 3]]]
   \<and> make_eig test_engine (Some (Arr2 [[1, 2], [2, 3]])) = Inr [[21, 3]]
   \<and> self_net test_engine [[[21, 3]]] = 3 / 125"
proof -
  have "make_eig test_engine (Some (Arr2 [[1, 2], [2, 3]])) = Inr [[21, 3]]"
    by (simp add: test_engine_def make_eig_def proj_dms_def einsum_rap_rs_saq_def broadcastable_def bsize_def bidx_def
        is_matrix_def dim1_def dim2_def torch_cat_def cat_rows_def symeig1_def)
  moreover have "self_net test_engine [[[21, 3]]] = 3 / 125"
    by (simp add: test_engine_def test_model_def)
  ultimately show ?thesis
    using descriptors_agree [of test_engine "Arr2 [[1, 2], [2, 3]]"] by simp
qed

section \<open>The values of the contractions\<close>

lemma sequence_err_map_Inr:
  "(\<And>x. x \<in> set xs \<Longrightarrow> f x = Inr (g x)) \<Longrightarrow> sequence_err (map f xs) = Inr (map g xs)"
  by (induction xs) auto

lemma dim1_tensor3: "is_tensor3 n0 n1 n2 T \<Longrightarrow> 0 < n0 \<Longrightarrow> dim1 T = n1"
  by (cases T) (auto simp: is_tensor3_def is_matrix_def dim1_def)

lemma einsum_proj:
  assumes "is_tensor3 nao natm w po" and "0 < nao" and "is_matrix nao nao D"
  shows "einsum_rap_rs_saq po (Arr2 D) po = Inr (proj_block po D)"
proof -
  have "length po = nao"
    using assms(1) by (simp add: is_tensor3_def)
  then show ?thesis
    using einsum_rap_rs_saq_fit [of po D] assms(2,3) by (auto simp: proj_block_def)
qed

lemma einsum_ao: "einsum_rap_saq po po = Inr (ao_block po)"
  by (simp add: einsum_rap_saq_def ao_block_def)

lemma t_proj_aos_blocks: "t_proj_aos shells = Inr (map ao_block shells)"
  unfolding t_proj_aos_def by (rule sequence_err_map_Inr) (rule einsum_ao)

lemma split_block_tensor3:
  assumes "is_tensor3 n0 n1 n2 T" and "sum_list sizes = n2" and "k < length sizes"
  shows "is_tensor3 n0 n1 (sizes ! k) (map (map (\<lambda>row. split_sizes sizes row ! k)) T)"
proof -
  have len: "length (split_sizes sizes row ! k) = sizes ! k"
    if "length row = n2" for row
  proof -
    have "map length (split_sizes sizes row) = sizes"
      using assms(2) that by (simp add: map_length_split_sizes)
    then show ?thesis
      using assms(3) by (metis length_split_sizes nth_map)
  qed
  have "is_matrix n1 (sizes ! k) (map (\<lambda>row. split_sizes sizes row ! k) M)"
    if "M \<in> set T" for M
  proof -
    have "is_matrix n1 n2 M"
      using assms(1) that by (simp add: is_tensor3_def)
    then show ?thesis
      by (auto simp: is_matrix_def len)
  qed
  then show ?thesis
    using assms(1) by (simp add: is_tensor3_def)
qed

lemma constructed_shells:
  assumes "constructed nao natm slf"
  shows "self_t_proj_shells slf \<noteq> []"
    and "\<And>po. po \<in> set (self_t_proj_shells slf) \<Longrightarrow> is_tensor3 nao natm (dim2 po) po"
    and "self_t_proj_aos slf = map ao_block (self_t_proj_shells slf)"
    and "\<And>po. po \<in> set (self_t_proj_shells slf) \<Longrightarrow> 0 < dim2 po"
proof -
  define P where "P = self_t_proj_ovlp slf"
  define sizes where "sizes = shell_sec (self_basis slf)"
  have P: "is_tensor3 nao natm (dim2 P) P" and pos: "0 < nao" "0 < natm" "0 < dim2 P"
    and split: "torch_split P sizes = Inr (self_t_proj_shells slf)"
    and aos: "t_proj_aos (self_t_proj_shells slf) = Inr (self_t_proj_aos slf)"
    using assms by (simp_all add: constructed_def P_def sizes_def t_proj_shells_def)
  have sum: "sum_list sizes = dim2 P"
    and shells: "self_t_proj_shells slf
        = map (\<lambda>k. map (map (\<lambda>row. split_sizes sizes row ! k)) P) [0..<length sizes]"
    using split by (auto simp: torch_split_def split: if_splits)
  have "sizes \<noteq> []"
    using sum pos by auto
  then show "self_t_proj_shells slf \<noteq> []"
    by (simp add: shells)
  show "is_tensor3 nao natm (dim2 po) po" if "po \<in> set (self_t_proj_shells slf)" for po
  proof -
    from that obtain k where k: "k < length sizes"
      and po: "po = map (map (\<lambda>row. split_sizes sizes row ! k)) P"
      unfolding shells in_set_conv_nth by auto
    have "is_tensor3 nao natm (sizes ! k) po"
      unfolding po using P sum k by (rule split_block_tensor3)
    then show ?thesis
      using pos dim2_tensor3 by metis
  qed
  show "self_t_proj_aos slf = map ao_block (self_t_proj_shells slf)"
    using aos by (simp add: t_proj_aos_blocks)
  show "0 < dim2 po" if "po \<in> set (self_t_proj_shells slf)" for po
  proof -
    from that obtain k where k: "k < length sizes"
      and po: "po = map (map (\<lambda>row. split_sizes sizes row ! k)) P"
      unfolding shells in_set_conv_nth by auto
    have "dim2 po = sizes ! k"
      unfolding po using P pos(1,2) sum k by (rule split_block_width)
    moreover have "0 < x" if "x \<in> set (shell_sec basis)" for x and basis :: "shell list"
      using that by (auto simp: shell_sec_def)
    moreover have "sizes ! k \<in> set (shell_sec (self_basis slf))"
      using k by (simp add: sizes_def)
    ultimately show ?thesis
      by simp
  qed
qed


lemma proj_dms_blocks:
  assumes "constructed nao natm slf" and "is_matrix nao nao D"
  shows "proj_dms (self_t_proj_shells slf) (Arr2 D)
       = Inr (map (\<lambda>po. proj_block po D) (self_t_proj_shells slf))"
  unfolding proj_dms_def
proof (rule sequence_err_map_Inr)
  fix po assume "po \<in> set (self_t_proj_shells slf)"
  then have "is_tensor3 nao natm (dim2 po) po"
    using constructed_shells(2) [OF assms(1)] by simp
  moreover have "0 < nao"
    using assms(1) by (simp add: constructed_def)
  ultimately show "einsum_rap_rs_saq po (Arr2 D) po = Inr (proj_block po D)"
    using assms(2) by (rule einsum_proj)
qed

lemma proj_block_tensor3:
  assumes "is_tensor3 nao natm w po" and "0 < nao" and "0 < natm"
  shows "is_tensor3 natm w w (proj_block po D)"
  using assms dim1_tensor3 [OF assms(1,2)] dim2_tensor3 [OF assms]
  by (simp add: proj_block_def is_tensor3_def is_matrix_def)

lemma t_ceig_value:
  assumes "constructed nao natm slf" and "is_matrix nao nao D"
  shows "t_ceig slf (Arr2 D)
       = Inr [cat_rows (map (map (torch_symeig slf))
                (map (\<lambda>po. proj_block po D) (self_t_proj_shells slf)))]"
proof -
  have ne: "self_t_proj_shells slf \<noteq> []"
    using constructed_shells(1) [OF assms(1)] .
  have pos: "0 < nao"
    using assms(1) by (simp add: constructed_def)
  have len: "length (proj_block po D) = natm" if "po \<in> set (self_t_proj_shells slf)" for po
    using dim1_tensor3 [OF constructed_shells(2) [OF assms(1) that] pos]
    by (simp add: proj_block_def)
  have "torch_cat (map (map (torch_symeig slf))
                (map (\<lambda>po. proj_block po D) (self_t_proj_shells slf)))
      = Inr (cat_rows (map (map (torch_symeig slf))
                (map (\<lambda>po. proj_block po D) (self_t_proj_shells slf))))"
    using ne len by (cases "self_t_proj_shells slf") (auto simp: torch_cat_def)
  then show ?thesis
    by (simp add: t_ceig_def proj_dms_blocks [OF assms])
qed


lemma map_upt_Cons: "0 < n \<Longrightarrow> map f [0..<n] = f 0 # map f [Suc 0..<n]"
  by (simp add: upt_conv_Cons)

lemma dim1_map_upt: "0 < n \<Longrightarrow> dim1 (map f [0..<n]) = length (f 0)"
  by (simp add: dim1_def map_upt_Cons)

lemma dim2_map_upt: "0 < n \<Longrightarrow> dim2 (map f [0..<n]) = dim1 (f 0)"
  by (simp add: dim2_def map_upt_Cons)

lemma dim3_map_upt: "0 < n \<Longrightarrow> dim3 (map f [0..<n]) = dim2 (f 0)"
  by (simp add: dim3_def map_upt_Cons)

lemma dim4_map_upt: "0 < n \<Longrightarrow> dim4 (map f [0..<n]) = dim3 (f 0)"
  by (simp add: dim4_def map_upt_Cons)

lemma dim1_map_upt_any: "dim1 (map (\<lambda>i. map (g i) [0..<m]) [0..<n]) = (if 0 < n then m else 0)"
  by (simp add: dim1_map_upt) (simp add: dim1_def)

lemma ao_block_dims:
  assumes "is_tensor3 nao natm w po" and "0 < nao" and "0 < natm"
  shows "length (ao_block po) = nao" and "dim1 (ao_block po) = nao"
    and "dim2 (ao_block po) = natm" and "dim3 (ao_block po) = w" and "dim4 (ao_block po) = w"
proof -
  have l: "length po = nao"
    using assms(1) by (simp add: is_tensor3_def)
  have d1: "dim1 po = natm"
    using assms(1,2) by (rule dim1_tensor3)
  have d2: "dim2 po = w"
    using assms by (rule dim2_tensor3)
  show "length (ao_block po) = nao"
    by (simp add: ao_block_def l)
  show "dim1 (ao_block po) = nao"
    using assms(2) by (simp add: ao_block_def l dim1_map_upt)
  show "dim2 (ao_block po) = natm"
    using assms(2) by (simp add: ao_block_def l d1 dim2_map_upt dim1_map_upt)
  show "dim3 (ao_block po) = w"
    using assms(2,3)
    by (simp add: ao_block_def l d1 d2 dim3_map_upt dim2_map_upt dim1_map_upt)
  show "dim4 (ao_block po) = w"
    using assms(2,3)
    by (simp add: ao_block_def l d1 d2 dim4_map_upt dim3_map_upt dim2_map_upt
        dim1_map_upt_any)
qed

lemma einsum_vc:
  assumes "is_tensor3 nao natm w po" and "0 < nao" and "0 < natm"
    and "is_tensor3 natm w w gdm"
  shows "einsum_rsapq_apq (ao_block po) gdm = Inr (vc_block po gdm)"
proof -
  have l: "length po = nao"
    using assms(1) by (simp add: is_tensor3_def)
  have d1: "dim1 po = natm"
    using assms(1,2) by (rule dim1_tensor3)
  have d2: "dim2 po = w"
    using assms(1-3) by (rule dim2_tensor3)
  have "(\<Sum>a<natm. \<Sum>p<w. \<Sum>q<w. ao_block po ! r ! s ! a ! p ! q * gdm ! a ! p ! q)
      = (\<Sum>a<natm. \<Sum>p<w. \<Sum>q<w. po ! r ! a ! p * po ! s ! a ! q * gdm ! a ! p ! q)"
    if "r < nao" and "s < nao" for r s
    using that by (simp add: ao_block_def l d1 d2)
  then show ?thesis
    using assms(4)
    by (simp add: einsum_rsapq_apq_def vc_block_def ao_block_dims [OF assms(1-3)] l d1 d2)
qed

lemma vc_block_matrix: "is_matrix (length po) (length po) (vc_block po gdm)"
  by (simp add: vc_block_def is_matrix_def)

lemma is_matrix_lengths: "is_matrix n m D \<longleftrightarrow> map length D = replicate n m"
proof
  assume "is_matrix n m D"
  then show "map length D = replicate n m"
    by (intro replicate_eqI) (auto simp: is_matrix_def)
next
  assume eq: "map length D = replicate n m"
  then have "length D = n"
    by (metis length_map length_replicate)
  moreover have "length row = m" if "row \<in> set D" for row
  proof -
    have "length row \<in> set (map length D)"
      using that by simp
    then show ?thesis
      unfolding eq by simp
  qed
  ultimately show "is_matrix n m D"
    by (simp add: is_matrix_def)
qed

lemma same_lengths_tensor3:
  assumes "map (map length) A = map (map length) B" and "is_tensor3 n0 n1 n2 B"
  shows "is_tensor3 n0 n1 n2 A"
proof -
  have len: "length A = length B"
    using assms(1) by (metis length_map)
  have "is_matrix n1 n2 M" if "M \<in> set A" for M
  proof -
    from that obtain i where i: "i < length A" and M: "M = A ! i"
      by (auto simp: in_set_conv_nth)
    have "map length (A ! i) = map length (B ! i)"
      using assms(1) i len by (metis nth_map)
    moreover have "is_matrix n1 n2 (B ! i)"
      using assms(2) i len by (simp add: is_tensor3_def)
    ultimately show ?thesis
      by (simp add: is_matrix_lengths M)
  qed
  then show ?thesis
    using assms(2) len by (simp add: is_tensor3_def)
qed

lemma same_shape_nth:
  assumes "same_shape G Ms" and "k < length Ms"
  shows "length G = length Ms" and "map (map length) (G ! k) = map (map length) (Ms ! k)"
proof -
  show l: "length G = length Ms"
    using assms(1) unfolding same_shape_def by (metis length_map)
  show "map (map length) (G ! k) = map (map length) (Ms ! k)"
    using assms l unfolding same_shape_def by (metis nth_map)
qed


lemma stack_sum_value:
  assumes "Vs \<noteq> []" and "\<And>V. V \<in> set Vs \<Longrightarrow> is_matrix n n V"
  shows "stack_sum Vs = Inr (mat_sum n n Vs)"
proof -
  have "hd Vs \<in> set Vs"
    using assms(1) by simp
  then have hd: "is_matrix n n (hd Vs)"
    by (rule assms(2))
  then have "length (hd Vs) = n" and "dim1 (hd Vs) = n"
    by (simp_all add: dim1_square) (simp add: is_matrix_def)
  then show ?thesis
    using assms by (auto simp: stack_sum_def mat_sum_def)
qed

lemma shell_vcs_value:
  assumes c: "constructed nao natm slf" and D: "is_matrix nao nao D"
    and G: "same_shape G (map (\<lambda>po. proj_block po D) (self_t_proj_shells slf))"
  shows "sequence_err (map (\<lambda>(pao, gdm). einsum_rsapq_apq pao gdm) (zip (self_t_proj_aos slf) G))
       = Inr (map (\<lambda>(po, g). vc_block po g) (zip (self_t_proj_shells slf) G))"
proof -
  define shells where "shells = self_t_proj_shells slf"
  have pos: "0 < nao" "0 < natm"
    using c by (simp_all add: constructed_def)
  have aos: "self_t_proj_aos slf = map ao_block shells"
    using constructed_shells(3) [OF c] by (simp add: shells_def)
  have G': "same_shape G (map (\<lambda>po. proj_block po D) shells)"
    using G by (simp add: shells_def)
  have "map (\<lambda>(pao, gdm). einsum_rsapq_apq pao gdm) (zip (map ao_block shells) G)
      = map (\<lambda>(po, g). einsum_rsapq_apq (ao_block po) g) (zip shells G)"
    by (simp add: zip_map1 case_prod_unfold)
  moreover have "sequence_err (map (\<lambda>(po, g). einsum_rsapq_apq (ao_block po) g) (zip shells G))
      = Inr (map (\<lambda>(po, g). vc_block po g) (zip shells G))"
  proof (rule sequence_err_map_Inr)
    fix x assume "x \<in> set (zip shells G)"
    then obtain k where k: "k < length shells" "k < length G"
      and x: "x = (shells ! k, G ! k)"
      by (auto simp: set_zip)
    have po: "is_tensor3 nao natm (dim2 (shells ! k)) (shells ! k)"
      using constructed_shells(2) [OF c] k(1) by (simp add: shells_def)
    have "map (map length) (G ! k) = map (map length) (proj_block (shells ! k) D)"
      using same_shape_nth(2) [OF G', of k] k(1) by simp
    moreover have "is_tensor3 natm (dim2 (shells ! k)) (dim2 (shells ! k))
                     (proj_block (shells ! k) D)"
      using po pos by (rule proj_block_tensor3)
    ultimately have "is_tensor3 natm (dim2 (shells ! k)) (dim2 (shells ! k)) (G ! k)"
      by (rule same_lengths_tensor3)
    with po pos have "einsum_rsapq_apq (ao_block (shells ! k)) (G ! k)
        = Inr (vc_block (shells ! k) (G ! k))"
      by (rule einsum_vc)
    then show "(case x of (po, g) \<Rightarrow> einsum_rsapq_apq (ao_block po) g)
        = Inr (case x of (po, g) \<Rightarrow> vc_block po g)"
      by (simp add: x)
  qed
  ultimately show ?thesis
    by (simp add: aos shells_def)
qed

lemma t_get_ec_value:
  assumes c: "constructed nao natm slf" and D: "is_matrix nao nao D"
    and G: "same_shape
              (torch_autograd_grad slf (ec_of_dms (torch_symeig slf) (self_net slf))
                 (map (\<lambda>po. proj_block po D) (self_t_proj_shells slf)))
              (map (\<lambda>po. proj_block po D) (self_t_proj_shells slf))"
  shows "t_get_ec slf (Arr2 D)
       = Inr (ec_of_dms (torch_symeig slf) (self_net slf)
                (map (\<lambda>po. proj_block po D) (self_t_proj_shells slf)),
              mat_sum nao nao
                (map (\<lambda>(po, g). vc_block po g)
                   (zip (self_t_proj_shells slf)
                      (torch_autograd_grad slf (ec_of_dms (torch_symeig slf) (self_net slf))
                         (map (\<lambda>po. proj_block po D) (self_t_proj_shells slf))))))"
proof -
  define shells where "shells = self_t_proj_shells slf"
  define Ms where "Ms = map (\<lambda>po. proj_block po D) shells"
  define G where "G = torch_autograd_grad slf (ec_of_dms (torch_symeig slf) (self_net slf)) Ms"
  define Vs where "Vs = map (\<lambda>(po, g). vc_block po g) (zip shells G)"
  have GM: "same_shape G Ms"
    using G by (simp add: G_def Ms_def shells_def)
  have ne: "shells \<noteq> []"
    using constructed_shells(1) [OF c] by (simp add: shells_def)
  have lenG: "length G = length shells"
    using same_shape_nth(1) [OF GM, of 0] ne by (simp add: Ms_def)
  have Vne: "Vs \<noteq> []"
    using ne lenG by (cases shells; cases G) (simp_all add: Vs_def)
  have Vm: "is_matrix nao nao V" if "V \<in> set Vs" for V
  proof -
    from that obtain po g where "po \<in> set shells" and V: "V = vc_block po g"
      by (auto simp: Vs_def dest: set_zip_leftD)
    then have "length po = nao"
      using constructed_shells(2) [OF c, of po] by (simp add: shells_def is_tensor3_def)
    then show ?thesis
      using vc_block_matrix [of po g] by (simp add: V)
  qed
  have 1: "proj_dms shells (Arr2 D) = Inr Ms"
    using proj_dms_blocks [OF c D] by (simp add: shells_def Ms_def)
  have 2: "t_ceig slf (Arr2 D) = Inr [cat_rows (map (map (torch_symeig slf)) Ms)]"
    using t_ceig_value [OF c D] by (simp add: shells_def Ms_def)
  have 3: "sequence_err (map (\<lambda>(pao, gdm). einsum_rsapq_apq pao gdm) (zip (self_t_proj_aos slf) G))
      = Inr Vs"
    using shell_vcs_value [OF c D, of G] GM by (simp add: shells_def Ms_def Vs_def)
  have 4: "stack_sum Vs = Inr (mat_sum nao nao Vs)"
    using Vne Vm by (rule stack_sum_value)
  have "t_get_ec slf (Arr2 D)
      = Inr (self_net slf [cat_rows (map (map (torch_symeig slf)) Ms)], mat_sum nao nao Vs)"
    using 1 2 3 4 by (simp add: t_get_ec_def shells_def [symmetric] G_def [symmetric] Let_def)
  then show ?thesis
    by (simp add: ec_of_dms_def Vs_def G_def Ms_def shells_def)
qed

section \<open>Potential reconstruction\<close>

lemma mat_mul_nth:
  "i < length A \<Longrightarrow> j < dim1 B \<Longrightarrow> mat_mul A B ! i ! j = (\<Sum>k<length B. A ! i ! k * B ! k ! j)"
  by (simp add: mat_mul_def)

lemma length_mat_mul: "length (mat_mul A B) = length A"
  by (simp add: mat_mul_def)

lemma dim1_mat_mul: "dim1 (mat_mul A B) = (if 0 < length A then dim1 B else 0)"
  by (simp add: mat_mul_def dim1_map_upt_any)

lemma mat_mul_matrix: "is_matrix (length A) (dim1 B) (mat_mul A B)"
  by (simp add: mat_mul_def is_matrix_def)

lemma atom_slice_props:
  assumes "is_tensor3 nao natm w po" and "0 < nao" and "a < natm"
  shows "length (atom_slice po a) = nao" and "dim1 (atom_slice po a) = w"
    and "\<And>r. r < nao \<Longrightarrow> atom_slice po a ! r = po ! r ! a"
proof -
  show l: "length (atom_slice po a) = nao"
    using assms(1) by (simp add: atom_slice_def is_tensor3_def)
  show n: "atom_slice po a ! r = po ! r ! a" if "r < nao" for r
    using assms(1) that by (simp add: atom_slice_def is_tensor3_def)
  have "atom_slice po a \<noteq> []"
    using l assms(2) by auto
  then have "dim1 (atom_slice po a) = length (atom_slice po a ! 0)"
    by (cases "atom_slice po a") (simp_all add: dim1_def)
  then show "dim1 (atom_slice po a) = w"
    using n [OF assms(2)] tensor3_row [OF assms(1,2,3)] by simp
qed

lemma mat_transpose_props:
  "length (mat_transpose A) = dim1 A"
  "dim1 (mat_transpose A) = (if 0 < dim1 A then length A else 0)"
  "j < dim1 A \<Longrightarrow> i < length A \<Longrightarrow> mat_transpose A ! j ! i = A ! i ! j"
  by (simp_all add: mat_transpose_def dim1_map_upt_any)

lemma tensor3_block:
  assumes "is_tensor3 n0 n1 n2 T" and "a < n0"
  shows "is_matrix n1 n2 (T ! a)" and "length (T ! a) = n1"
proof -
  have "T ! a \<in> set T"
    using assms by (simp add: is_tensor3_def)
  then show "is_matrix n1 n2 (T ! a)"
    using assms(1) by (simp add: is_tensor3_def)
  then show "length (T ! a) = n1"
    by (simp add: is_matrix_def)
qed

lemma matrix_row: "is_matrix n m A \<Longrightarrow> i < n \<Longrightarrow> length (A ! i) = m"
  by (simp add: is_matrix_def)

lemma vc_block_shell_potential:
  assumes po: "is_tensor3 nao natm w po" and pos: "0 < nao" "0 < natm" "0 < w"
    and g: "is_tensor3 natm w w gdm"
  shows "vc_block po gdm = shell_potential po gdm"
proof -
  have l: "length po = nao"
    using po by (simp add: is_tensor3_def)
  have d1: "dim1 po = natm"
    using po pos(1) by (rule dim1_tensor3)
  have d2: "dim2 po = w"
    using po pos(1,2) by (rule dim2_tensor3)
  have entry: "mat_mul (mat_mul (atom_slice po a) (gdm ! a)) (mat_transpose (atom_slice po a)) ! r ! s
      = (\<Sum>p<w. \<Sum>q<w. po ! r ! a ! p * po ! s ! a ! q * gdm ! a ! p ! q)"
    if a: "a < natm" and r: "r < nao" and s: "s < nao" for a r s
  proof -
    note A = atom_slice_props [OF po pos(1) a]
    have ga: "is_matrix w w (gdm ! a)"
      using g a by (rule tensor3_block)
    have lg: "length (gdm ! a) = w" and dg: "dim1 (gdm ! a) = w"
      using ga pos(3) by (simp_all add: dim1_matrix) (simp add: is_matrix_def)
    have "mat_mul (mat_mul (atom_slice po a) (gdm ! a)) (mat_transpose (atom_slice po a)) ! r ! s
        = (\<Sum>q<w. mat_mul (atom_slice po a) (gdm ! a) ! r ! q * mat_transpose (atom_slice po a) ! q ! s)"
      using r s pos(3) by (simp add: mat_mul_nth length_mat_mul mat_transpose_props A)
    also have "\<dots> = (\<Sum>q<w. (\<Sum>p<w. po ! r ! a ! p * gdm ! a ! p ! q) * po ! s ! a ! q)"
      using r s by (intro sum.cong refl) (simp add: mat_mul_nth mat_transpose_props A lg dg)
    also have "\<dots> = (\<Sum>q<w. \<Sum>p<w. po ! r ! a ! p * po ! s ! a ! q * gdm ! a ! p ! q)"
      unfolding sum_distrib_right by (intro sum.cong refl) (simp add: mult_ac)
    also have "\<dots> = (\<Sum>p<w. \<Sum>q<w. po ! r ! a ! p * po ! s ! a ! q * gdm ! a ! p ! q)"
      by (rule sum.swap)
    finally show ?thesis .
  qed
  show ?thesis
    by (simp add: vc_block_def shell_potential_def mat_sum_def l d1 d2 entry)
qed


lemma grad_block_tensor3:
  assumes c: "constructed nao natm slf"
    and G: "same_shape G (map (\<lambda>po. proj_block po D) (self_t_proj_shells slf))"
    and k: "k < length (self_t_proj_shells slf)"
  shows "is_tensor3 natm (dim2 (self_t_proj_shells slf ! k)) (dim2 (self_t_proj_shells slf ! k))
           (G ! k)"
    and "length G = length (self_t_proj_shells slf)"
proof -
  have pos: "0 < nao" "0 < natm"
    using c by (simp_all add: constructed_def)
  have po: "is_tensor3 nao natm (dim2 (self_t_proj_shells slf ! k)) (self_t_proj_shells slf ! k)"
    using constructed_shells(2) [OF c] k by simp
  have "map (map length) (G ! k) = map (map length) (proj_block (self_t_proj_shells slf ! k) D)"
    using same_shape_nth(2) [OF G, of k] k by simp
  moreover have "is_tensor3 natm (dim2 (self_t_proj_shells slf ! k))
      (dim2 (self_t_proj_shells slf ! k)) (proj_block (self_t_proj_shells slf ! k) D)"
    using po pos by (rule proj_block_tensor3)
  ultimately show "is_tensor3 natm (dim2 (self_t_proj_shells slf ! k))
      (dim2 (self_t_proj_shells slf ! k)) (G ! k)"
    by (rule same_lengths_tensor3)
  show "length G = length (self_t_proj_shells slf)"
    using same_shape_nth(1) [OF G, of k] k by simp
qed

lemma shell_contribution:
  assumes c: "constructed nao natm slf"
    and G: "same_shape G (map (\<lambda>po. proj_block po D) (self_t_proj_shells slf))"
    and k: "k < length (self_t_proj_shells slf)"
  shows "vc_block (self_t_proj_shells slf ! k) (G ! k)
       = shell_potential (self_t_proj_shells slf ! k) (G ! k)"
    and "einsum_rsapq_apq (self_t_proj_aos slf ! k) (G ! k)
       = Inr (shell_potential (self_t_proj_shells slf ! k) (G ! k))"
proof -
  define po where "po = self_t_proj_shells slf ! k"
  have pos: "0 < nao" "0 < natm"
    using c by (simp_all add: constructed_def)
  have mem: "po \<in> set (self_t_proj_shells slf)"
    using k by (simp add: po_def)
  have po: "is_tensor3 nao natm (dim2 po) po" and w: "0 < dim2 po"
    using constructed_shells(2,4) [OF c] mem by simp_all
  have g: "is_tensor3 natm (dim2 po) (dim2 po) (G ! k)"
    using grad_block_tensor3(1) [OF c G k] by (simp add: po_def)
  show eq: "vc_block (self_t_proj_shells slf ! k) (G ! k)
       = shell_potential (self_t_proj_shells slf ! k) (G ! k)"
    using vc_block_shell_potential [OF po pos w g] by (simp add: po_def)
  have "self_t_proj_aos slf ! k = ao_block po"
    using constructed_shells(3) [OF c] k by (simp add: po_def)
  then show "einsum_rsapq_apq (self_t_proj_aos slf ! k) (G ! k)
       = Inr (shell_potential (self_t_proj_shells slf ! k) (G ! k))"
    using einsum_vc [OF po pos g] eq by (simp add: po_def)
qed

lemma shell_vcs_potential:
  assumes c: "constructed nao natm slf"
    and G: "same_shape G (map (\<lambda>po. proj_block po D) (self_t_proj_shells slf))"
  shows "map (\<lambda>(po, g). vc_block po g) (zip (self_t_proj_shells slf) G)
       = map (\<lambda>(po, g). shell_potential po g) (zip (self_t_proj_shells slf) G)"
proof (rule map_cong [OF refl])
  fix x assume "x \<in> set (zip (self_t_proj_shells slf) G)"
  then obtain k where k: "k < length (self_t_proj_shells slf)"
    and x: "x = (self_t_proj_shells slf ! k, G ! k)"
    by (auto simp: set_zip)
  show "(case x of (po, g) \<Rightarrow> vc_block po g) = (case x of (po, g) \<Rightarrow> shell_potential po g)"
    using shell_contribution(1) [OF c G k] by (simp add: x)
qed

lemma mat_sum_matrix: "is_matrix n m (mat_sum n m As)"
  by (simp add: mat_sum_def is_matrix_def)

text \<open>
  C4: for every block of the projection tensor (a shell of \<^verbatim>\<open>t_proj_shells\<close>) with
  the gradient \<open>gdm\<close> of the correction energy with respect to its projected density
  blocks, the contraction \<^verbatim>\<open>'rsapq,apq->rs'\<close> of \<^verbatim>\<open>t_proj_aos\<close> with \<open>gdm\<close> is
  \<open>V_shell = \<Sum>a. P_a (dE/dM_a) P_a^T\<close>, and the correction potential returned by
  \<^verbatim>\<open>t_get_ec\<close> is the sum of the shell contributions, a matrix of the size of the
  density matrix.
\<close>

theorem potential_reconstruction:
  assumes "constructed nao natm slf" and "is_matrix nao nao D"
    and "proj_dms (self_t_proj_shells slf) (Arr2 D) = Inr Ms"
    and "grad_dms = torch_autograd_grad slf (ec_of_dms (torch_symeig slf) (self_net slf)) Ms"
    and "same_shape grad_dms Ms"
  shows "\<exists>ec vc. t_get_ec slf (Arr2 D) = Inr (ec, vc) \<and> is_matrix nao nao vc
      \<and> vc = mat_sum nao nao
               (map (\<lambda>(po, gdm). shell_potential po gdm) (zip (self_t_proj_shells slf) grad_dms))
      \<and> (\<forall>k<length (self_t_proj_shells slf).
            einsum_rsapq_apq (self_t_proj_aos slf ! k) (grad_dms ! k)
              = Inr (shell_potential (self_t_proj_shells slf ! k) (grad_dms ! k)))"
proof -
  have Ms: "Ms = map (\<lambda>po. proj_block po D) (self_t_proj_shells slf)"
    using assms(3) proj_dms_blocks [OF assms(1,2)] by simp
  have G: "same_shape grad_dms (map (\<lambda>po. proj_block po D) (self_t_proj_shells slf))"
    using assms(5) by (simp add: Ms)
  have "t_get_ec slf (Arr2 D)
      = Inr (ec_of_dms (torch_symeig slf) (self_net slf) Ms,
             mat_sum nao nao
               (map (\<lambda>(po, g). vc_block po g) (zip (self_t_proj_shells slf) grad_dms)))"
    using t_get_ec_value [OF assms(1,2)] G by (simp add: assms(4) Ms)
  then have "t_get_ec slf (Arr2 D)
      = Inr (ec_of_dms (torch_symeig slf) (self_net slf) Ms,
             mat_sum nao nao
               (map (\<lambda>(po, g). shell_potential po g) (zip (self_t_proj_shells slf) grad_dms)))"
    by (simp only: shell_vcs_potential [OF assms(1) G])
  moreover have "\<forall>k<length (self_t_proj_shells slf).
            einsum_rsapq_apq (self_t_proj_aos slf ! k) (grad_dms ! k)
              = Inr (shell_potential (self_t_proj_shells slf ! k) (grad_dms ! k))"
    using shell_contribution(2) [OF assms(1) G] by blast
  ultimately show ?thesis
    using mat_sum_matrix by blast
qed

lemma test_engine_constructed: "constructed 2 1 test_engine"
  by (simp add: constructed_def test_engine_def test_basis_def shell_sec_def t_proj_shells_def
      torch_split_def t_proj_aos_def einsum_rap_saq_def is_tensor3_def is_matrix_def
      dim1_def dim2_def)

lemma test_engine_proj_dms:
  "proj_dms (self_t_proj_shells test_engine) (Arr2 [[1, 2], [2, 3]]) = Inr [[[[21]]], [[[3]]]]"
  by (simp add: test_engine_def proj_dms_def einsum_rap_rs_saq_def broadcastable_def bsize_def bidx_def is_matrix_def dim1_def dim2_def)

lemma test_engine_grad:
  "torch_autograd_grad test_engine F [[[[21]]], [[[3]]]] = [[[[1 / 1000]]], [[[1 / 1000]]]]"
  by (simp add: test_engine_def test_grad_def)

theorem potential_reconstruction_witness:
  "t_get_ec test_engine (Arr2 [[1, 2], [2, 3]])
     = Inr (3 / 125, [[1 / 1000, 1 / 500], [1 / 500, 1 / 200]])
   \<and> mat_sum 2 2 (map (\<lambda>(po, gdm). shell_potential po gdm)
        (zip (self_t_proj_shells test_engine) [[[[1 / 1000]]], [[[1 / 1000]]]]))
     = [[1 / 1000, 1 / 500], [1 / 500, 1 / 200]]"
proof -
  have "\<exists>ec vc. t_get_ec test_engine (Arr2 [[1, 2], [2, 3]]) = Inr (ec, vc) \<and> is_matrix 2 2 vc
      \<and> vc = mat_sum 2 2
               (map (\<lambda>(po, gdm). shell_potential po gdm)
                  (zip (self_t_proj_shells test_engine) [[[[1 / 1000]]], [[[1 / 1000]]]]))
      \<and> (\<forall>k<length (self_t_proj_shells test_engine).
            einsum_rsapq_apq (self_t_proj_aos test_engine ! k) ([[[[1 / 1000]]], [[[1 / 1000]]]] ! k)
              = Inr (shell_potential (self_t_proj_shells test_engine ! k)
                       ([[[[1 / 1000]]], [[[1 / 1000]]]] ! k)))"
    by (rule potential_reconstruction [OF test_engine_constructed _ test_engine_proj_dms])
      (simp_all add: is_matrix_def test_engine_grad same_shape_def)
  then show ?thesis
    using test_engine_get_ec by auto
qed

section \<open>Descriptor extraction\<close>

lemma proj_block_nth:
  assumes po: "is_tensor3 nao natm w po" and pos: "0 < nao" "0 < natm" and a: "a < natm"
  shows "proj_block po D ! a
       = map (\<lambda>p. map (\<lambda>q. (\<Sum>r<nao. \<Sum>s<nao. po ! r ! a ! p * D ! r ! s * po ! s ! a ! q))
            [0..<w]) [0..<w]"
proof -
  have l: "length po = nao"
    using po by (simp add: is_tensor3_def)
  have d1: "dim1 po = natm"
    using po pos(1) by (rule dim1_tensor3)
  have d2: "dim2 po = w"
    using po pos by (rule dim2_tensor3)
  show ?thesis
    using a by (simp add: proj_block_def l d1 d2)
qed

lemma proj_block_projected_density:
  assumes po: "is_tensor3 nao natm w po" and pos: "0 < nao" "0 < natm" "0 < w"
    and a: "a < natm" and D: "is_matrix nao nao D"
  shows "proj_block po D ! a = projected_density po D a"
proof -
  note A = atom_slice_props [OF po pos(1) a]
  have lD: "length D = nao" and dD: "dim1 D = nao"
    using D by (simp_all add: dim1_square) (simp add: is_matrix_def)
  define X where "X = mat_mul (mat_transpose (atom_slice po a)) D"
  have lX: "length X = w"
    by (simp add: X_def length_mat_mul mat_transpose_props A)
  have X: "X ! p ! s = (\<Sum>r<nao. po ! r ! a ! p * D ! r ! s)" if "p < w" and "s < nao" for p s
  proof -
    have "X ! p ! s = (\<Sum>r<nao. mat_transpose (atom_slice po a) ! p ! r * D ! r ! s)"
      using that by (simp add: X_def mat_mul_nth mat_transpose_props A lD dD)
    also have "\<dots> = (\<Sum>r<nao. po ! r ! a ! p * D ! r ! s)"
      using that by (intro sum.cong refl) (simp add: mat_transpose_props A)
    finally show ?thesis .
  qed
  have entry: "(\<Sum>s<nao. X ! p ! s * atom_slice po a ! s ! q)
      = (\<Sum>r<nao. \<Sum>s<nao. po ! r ! a ! p * D ! r ! s * po ! s ! a ! q)"
    if "p < w" and "q < w" for p q
  proof -
    have "(\<Sum>s<nao. X ! p ! s * atom_slice po a ! s ! q)
        = (\<Sum>s<nao. (\<Sum>r<nao. po ! r ! a ! p * D ! r ! s) * po ! s ! a ! q)"
      using that by (intro sum.cong refl) (simp add: X A)
    also have "\<dots> = (\<Sum>s<nao. \<Sum>r<nao. po ! r ! a ! p * D ! r ! s * po ! s ! a ! q)"
      by (simp add: sum_distrib_right)
    also have "\<dots> = (\<Sum>r<nao. \<Sum>s<nao. po ! r ! a ! p * D ! r ! s * po ! s ! a ! q)"
      by (rule sum.swap)
    finally show ?thesis .
  qed
  have "projected_density po D a = mat_mul X (atom_slice po a)"
    by (simp add: projected_density_def X_def)
  also have "\<dots>
      = map (\<lambda>p. map (\<lambda>q. (\<Sum>s<nao. X ! p ! s * atom_slice po a ! s ! q)) [0..<w]) [0..<w]"
    unfolding mat_mul_def lX A(1,2) ..
  also have "\<dots> = map (\<lambda>p. map (\<lambda>q.
        (\<Sum>r<nao. \<Sum>s<nao. po ! r ! a ! p * D ! r ! s * po ! s ! a ! q)) [0..<w]) [0..<w]"
    by (intro map_cong refl) (simp add: entry)
  finally show ?thesis
    by (simp add: proj_block_nth [OF po pos(1,2) a])
qed

lemma proj_block_symmetric:
  assumes po: "is_tensor3 nao natm w po" and pos: "0 < nao" "0 < natm"
    and a: "a < natm" and D: "is_matrix nao nao D" and sym: "symmetric D"
  shows "symmetric (proj_block po D ! a)"
proof -
  have lD: "length D = nao"
    using D by (simp add: is_matrix_def)
  have Dsym: "D ! r ! s = D ! s ! r" if "r < nao" and "s < nao" for r s
    using sym that by (simp add: symmetric_def lD)
  have "(\<Sum>r<nao. \<Sum>s<nao. po ! r ! a ! p * D ! r ! s * po ! s ! a ! q)
      = (\<Sum>r<nao. \<Sum>s<nao. po ! r ! a ! q * D ! r ! s * po ! s ! a ! p)" for p q
  proof -
    have "(\<Sum>r<nao. \<Sum>s<nao. po ! r ! a ! q * D ! r ! s * po ! s ! a ! p)
        = (\<Sum>s<nao. \<Sum>r<nao. po ! r ! a ! q * D ! r ! s * po ! s ! a ! p)"
      by (rule sum.swap)
    also have "\<dots> = (\<Sum>s<nao. \<Sum>r<nao. po ! s ! a ! p * D ! s ! r * po ! r ! a ! q)"
      by (intro sum.cong refl) (simp add: Dsym mult_ac)
    finally show ?thesis
      by simp
  qed
  then show ?thesis
    by (simp add: proj_block_nth [OF po pos a] symmetric_def is_matrix_def)
qed

lemma constructed_widths:
  assumes "constructed nao natm slf"
  shows "map dim2 (self_t_proj_shells slf) = shell_sec (self_basis slf)"
    and "sum_list (map dim2 (self_t_proj_shells slf)) = dim2 (self_t_proj_ovlp slf)"
proof -
  define P where "P = self_t_proj_ovlp slf"
  define sizes where "sizes = shell_sec (self_basis slf)"
  have P: "is_tensor3 nao natm (dim2 P) P" and pos: "0 < nao" "0 < natm"
    and split: "torch_split P sizes = Inr (self_t_proj_shells slf)"
    using assms by (simp_all add: constructed_def P_def sizes_def t_proj_shells_def)
  have sum: "sum_list sizes = dim2 P"
    and shells: "self_t_proj_shells slf
        = map (\<lambda>k. map (map (\<lambda>row. split_sizes sizes row ! k)) P) [0..<length sizes]"
    using split by (auto simp: torch_split_def split: if_splits)
  have "map dim2 (self_t_proj_shells slf) = sizes"
  proof (rule nth_equalityI)
    show "length (map dim2 (self_t_proj_shells slf)) = length sizes"
      by (simp add: shells)
  next
    fix k assume "k < length (map dim2 (self_t_proj_shells slf))"
    then have k: "k < length sizes"
      by (simp add: shells)
    then show "map dim2 (self_t_proj_shells slf) ! k = sizes ! k"
      using split_block_width [OF P pos sum k] by (simp add: shells)
  qed
  then show "map dim2 (self_t_proj_shells slf) = shell_sec (self_basis slf)"
    and "sum_list (map dim2 (self_t_proj_shells slf)) = dim2 (self_t_proj_ovlp slf)"
    using sum by (simp_all add: sizes_def P_def)
qed


lemma make_eig_value:
  assumes c: "constructed nao natm slf" and D: "is_matrix nao nao D"
  shows "make_eig slf (Some (Arr2 D))
       = Inr (map (\<lambda>a. concat (map (\<lambda>po. torch_symeig slf (proj_block po D ! a))
                                (self_t_proj_shells slf))) [0..<natm])"
proof -
  define shells where "shells = self_t_proj_shells slf"
  define Es where "Es = map (map (torch_symeig slf)) (map (\<lambda>po. proj_block po D) shells)"
  have ne: "shells \<noteq> []"
    using constructed_shells(1) [OF c] by (simp add: shells_def)
  have pos: "0 < nao"
    using c by (simp add: constructed_def)
  have len: "length (proj_block po D) = natm" if "po \<in> set shells" for po
    using dim1_tensor3 [OF constructed_shells(2) [OF c, of po] pos] that
    by (simp add: proj_block_def shells_def)
  have hd: "length (hd Es) = natm"
    using ne len by (cases shells) (simp_all add: Es_def)
  have "torch_cat Es = Inr (cat_rows Es)"
    using ne len hd by (auto simp: torch_cat_def Es_def)
  moreover have "cat_rows Es
      = map (\<lambda>a. concat (map (\<lambda>po. torch_symeig slf (proj_block po D ! a)) shells)) [0..<natm]"
  proof -
    have "map (\<lambda>E. E ! a) Es = map (\<lambda>po. torch_symeig slf (proj_block po D ! a)) shells"
      if "a < natm" for a
      using that len by (simp add: Es_def)
    then show ?thesis
      by (simp add: cat_rows_def hd)
  qed
  moreover have "make_eig slf (Some (Arr2 D)) = torch_cat Es"
    using proj_dms_blocks [OF c D] by (simp add: make_eig_def shells_def Es_def)
  ultimately show ?thesis
    by (simp add: shells_def)
qed

text \<open>
  C3, amended: for a symmetric density matrix of the expected size and each atom \<open>a\<close>,
  \<^verbatim>\<open>make_eig\<close> computes the projected density block \<open>M_a = P_a^T D P_a\<close> of every
  block of the shell partition (one block per shell and radial function, of width
  \<open>2l+1\<close>), takes its eigenvalues in ascending order, keeps only the eigenvalues, puts
  those of the blocks side by side in the order of the blocks, and stacks the rows of
  the atoms: a tensor of shape \<open>[natom, nproj]\<close>.
\<close>

theorem descriptor_extraction:
  assumes "constructed nao natm slf" and "is_matrix nao nao D" and "symmetric D"
    and "symeig_contract w (torch_symeig slf)"
    and "\<forall>po \<in> set (self_t_proj_shells slf). dim2 po \<le> w"
  shows "\<exists>desc. make_eig slf (Some (Arr2 D)) = Inr desc
      \<and> is_matrix natm (dim2 (self_t_proj_ovlp slf)) desc
      \<and> (\<forall>a<natm. desc ! a
            = concat (map (\<lambda>po. torch_symeig slf (projected_density po D a))
                        (self_t_proj_shells slf)))
      \<and> (\<forall>po \<in> set (self_t_proj_shells slf). \<forall>a<natm.
            sorted_eigenvalues (projected_density po D a)
              (torch_symeig slf (projected_density po D a)))"
proof -
  define shells where "shells = self_t_proj_shells slf"
  define eig where "eig = torch_symeig slf"
  define desc where
    "desc = map (\<lambda>a. concat (map (\<lambda>po. eig (proj_block po D ! a)) shells)) [0..<natm]"
  have pos: "0 < nao" "0 < natm"
    using assms(1) by (simp_all add: constructed_def)
  have po: "is_tensor3 nao natm (dim2 po) po" and wpos: "0 < dim2 po" and wle: "dim2 po \<le> w"
    if "po \<in> set shells" for po
    using constructed_shells(2,4) [OF assms(1), of po] assms(5) that
    by (simp_all add: shells_def)
  have M: "proj_block po D ! a = projected_density po D a"
    if "po \<in> set shells" and "a < natm" for po a
    using proj_block_projected_density [OF po pos wpos that(2) assms(2)] that(1) by simp
  have eigs: "sorted_eigenvalues (projected_density po D a) (eig (projected_density po D a))"
    and lenM: "length (projected_density po D a) = dim2 po"
    if "po \<in> set shells" and "a < natm" for po a
  proof -
    have sym: "symmetric (proj_block po D ! a)"
      using po [OF that(1)] pos that(2) assms(2,3) by (rule proj_block_symmetric)
    have "length (proj_block po D ! a) = dim2 po"
      using proj_block_nth [OF po [OF that(1)] pos that(2)] by simp
    then show "length (projected_density po D a) = dim2 po"
      by (simp add: M [OF that])
    then show "sorted_eigenvalues (projected_density po D a) (eig (projected_density po D a))"
      using assms(4) sym wle [OF that(1)]
      by (simp add: symeig_contract_def M [OF that] eig_def)
  qed
  have res: "make_eig slf (Some (Arr2 D)) = Inr desc"
    using make_eig_value [OF assms(1,2)] by (simp add: desc_def shells_def eig_def)
  have rows: "desc ! a = concat (map (\<lambda>po. eig (projected_density po D a)) shells)"
    if "a < natm" for a
  proof -
    have "desc ! a = concat (map (\<lambda>po. eig (proj_block po D ! a)) shells)"
      using that by (simp add: desc_def)
    also have "\<dots> = concat (map (\<lambda>po. eig (projected_density po D a)) shells)"
      by (intro arg_cong [where f = concat] map_cong refl) (simp add: M that)
    finally show ?thesis .
  qed
  have shape: "is_matrix natm (dim2 (self_t_proj_ovlp slf)) desc"
  proof -
    have "length (desc ! a) = dim2 (self_t_proj_ovlp slf)" if "a < natm" for a
    proof -
      have "length (desc ! a)
          = sum_list (map (length \<circ> (\<lambda>po. eig (projected_density po D a))) shells)"
        by (simp add: rows [OF that] length_concat)
      also have "\<dots> = sum_list (map dim2 shells)"
      proof (intro arg_cong [where f = sum_list] map_cong refl)
        fix po assume "po \<in> set shells"
        then show "(length \<circ> (\<lambda>po. eig (projected_density po D a))) po = dim2 po"
          using eigs [of po a] lenM [of po a] that by (simp add: sorted_eigenvalues_def)
      qed
      finally have "length (desc ! a) = sum_list (map dim2 shells)" .
      then show ?thesis
        using constructed_widths(2) [OF assms(1)] by (simp add: shells_def)
    qed
    note len = this
    have l: "length desc = natm"
      by (simp add: desc_def)
    have "length row = dim2 (self_t_proj_ovlp slf)" if "row \<in> set desc" for row
    proof -
      from that obtain a where "a < length desc" and "row = desc ! a"
        by (auto simp: in_set_conv_nth)
      then show ?thesis
        using len [of a] l by simp
    qed
    then show ?thesis
      using l by (simp add: is_matrix_def)
  qed
  show ?thesis
    using res shape rows eigs unfolding shells_def eig_def by blast
qed


lemma symeig1_contract: "symeig_contract 1 symeig1"
  unfolding symeig_contract_def
proof (intro allI impI, elim conjE)
  fix M :: matrix assume len: "length M \<le> 1" and sym: "symmetric M"
  consider "M = []" | m where "M = [[m]]"
  proof (cases M)
    case Nil
    then show ?thesis using that by simp
  next
    case (Cons row M')
    then have "M' = []" and "length row = 1"
      using len sym by (simp_all add: symmetric_def is_matrix_def)
    then obtain m where "row = [m]"
      by (cases row) simp_all
    then show ?thesis
      using that Cons \<open>M' = []\<close> by simp
  qed
  then show "sorted_eigenvalues M (symeig1 M)"
  proof cases
    case 1
    have "is_matrix 0 0 ([] :: matrix) \<and> mat_mul (mat_transpose []) [] = identity_mat 0
        \<and> mat_mul [] [] = mat_mul [] (diag_mat [])"
      by (simp add: is_matrix_def mat_mul_def mat_transpose_def identity_mat_def dim1_def)
    then show ?thesis
      unfolding sorted_eigenvalues_def 1 by (auto simp: symeig1_def)
  next
    case (2 m)
    have "is_matrix 1 1 [[1::real]] \<and> mat_mul (mat_transpose [[1]]) [[1]] = identity_mat 1
        \<and> mat_mul [[m]] [[1]] = mat_mul [[1]] (diag_mat [m])"
      by (simp add: is_matrix_def mat_mul_def mat_transpose_def identity_mat_def diag_mat_def
          dim1_def)
    then show ?thesis
      unfolding sorted_eigenvalues_def 2 by (auto simp: symeig1_def)
  qed
qed

theorem descriptor_extraction_witness:
  "\<exists>desc. make_eig test_engine (Some (Arr2 [[1, 2], [2, 3]])) = Inr desc
      \<and> is_matrix 1 2 desc
      \<and> desc ! 0 = symeig1 (projected_density [[[1]], [[2]]] [[1, 2], [2, 3]] 0)
                   @ symeig1 (projected_density [[[0]], [[1]]] [[1, 2], [2, 3]] 0)
      \<and> sorted_eigenvalues (projected_density [[[1]], [[2]]] [[1, 2], [2, 3]] 0)
          (symeig1 (projected_density [[[1]], [[2]]] [[1, 2], [2, 3]] 0))"
proof -
  have shells: "self_t_proj_shells test_engine = [[[[1]], [[2]]], [[[0]], [[1]]]]"
    and ovlp: "dim2 (self_t_proj_ovlp test_engine) = 2"
    and eig: "torch_symeig test_engine = symeig1"
    by (simp_all add: test_engine_def dim2_def dim1_def)
  have "\<forall>po \<in> set (self_t_proj_shells test_engine). dim2 po \<le> 1"
    by (simp add: shells dim2_def dim1_def)
  moreover have "symmetric [[1, 2], [2, 3]]"
    by (simp add: symmetric_def is_matrix_def less_Suc_eq)
  moreover have "is_matrix 2 2 [[1, 2], [2, 3 :: real]]"
    by (simp add: is_matrix_def)
  moreover have "symeig_contract 1 (torch_symeig test_engine)"
    unfolding eig by (rule symeig1_contract)
  ultimately show ?thesis
    using descriptor_extraction [OF test_engine_constructed, of "[[1, 2], [2, 3]]" 1]
    by (simp add: shells ovlp eig) blast
qed

section \<open>Symmetry of the correction potential\<close>

lemma vc_block_nth:
  "r < length po \<Longrightarrow> s < length po \<Longrightarrow>
   vc_block po gdm ! r ! s
     = (\<Sum>a<dim1 po. \<Sum>p<dim2 po. \<Sum>q<dim2 po. po ! r ! a ! p * po ! s ! a ! q * gdm ! a ! p ! q)"
  by (simp add: vc_block_def)

lemma vc_block_symmetric:
  assumes g: "is_tensor3 (dim1 po) (dim2 po) (dim2 po) gdm"
    and sym: "\<forall>B \<in> set gdm. symmetric B"
  shows "symmetric (vc_block po gdm)"
proof -
  have gs: "gdm ! a ! p ! q = gdm ! a ! q ! p"
    if "a < dim1 po" and "p < dim2 po" and "q < dim2 po" for a p q
  proof -
    have "gdm ! a \<in> set gdm"
      using g that(1) by (simp add: is_tensor3_def)
    then have "symmetric (gdm ! a)"
      using sym by simp
    moreover have "length (gdm ! a) = dim2 po"
      using tensor3_block(2) [OF g that(1)] .
    ultimately show ?thesis
      using that by (simp add: symmetric_def)
  qed
  have "vc_block po gdm ! r ! s = vc_block po gdm ! s ! r"
    if "r < length po" and "s < length po" for r s
  proof -
    have "(\<Sum>p<dim2 po. \<Sum>q<dim2 po. po ! r ! a ! p * po ! s ! a ! q * gdm ! a ! p ! q)
        = (\<Sum>p<dim2 po. \<Sum>q<dim2 po. po ! s ! a ! p * po ! r ! a ! q * gdm ! a ! p ! q)"
      if a: "a < dim1 po" for a
    proof -
      have "(\<Sum>p<dim2 po. \<Sum>q<dim2 po. po ! r ! a ! p * po ! s ! a ! q * gdm ! a ! p ! q)
          = (\<Sum>q<dim2 po. \<Sum>p<dim2 po. po ! r ! a ! p * po ! s ! a ! q * gdm ! a ! p ! q)"
        by (rule sum.swap)
      also have "\<dots>
          = (\<Sum>q<dim2 po. \<Sum>p<dim2 po. po ! s ! a ! q * po ! r ! a ! p * gdm ! a ! q ! p)"
        by (intro sum.cong refl) (simp add: gs a mult_ac)
      finally show ?thesis .
    qed
    then show ?thesis
      using that by (simp add: vc_block_nth)
  qed
  then show ?thesis
    using vc_block_matrix [of po gdm] by (simp add: symmetric_def vc_block_def)
qed

lemma mat_sum_symmetric:
  assumes "\<And>V. V \<in> set Vs \<Longrightarrow> symmetric V \<and> length V = n"
  shows "symmetric (mat_sum n n Vs)"
proof -
  have "Vs ! k ! r ! s = Vs ! k ! s ! r" if "k < length Vs" and "r < n" and "s < n" for k r s
    using assms [of "Vs ! k"] that by (simp add: symmetric_def)
  then show ?thesis
    using mat_sum_matrix [of n n Vs] by (simp add: symmetric_def mat_sum_def)
qed

text \<open>
  C9: for a symmetric density matrix the correction potential is symmetric, given that
  the gradient of the correction energy with respect to the projected density blocks
  is symmetric where the blocks are, as the specification says of the gradient through
  the eigendecomposition. The blocks are symmetric because the density matrix is.
\<close>

theorem potential_symmetric:
  assumes "constructed nao natm slf" and "is_matrix nao nao D" and "symmetric D"
    and "proj_dms (self_t_proj_shells slf) (Arr2 D) = Inr Ms"
    and "grad_dms = torch_autograd_grad slf (ec_of_dms (torch_symeig slf) (self_net slf)) Ms"
    and "same_shape grad_dms Ms"
    and "symmetric_dms Ms \<longrightarrow> symmetric_dms grad_dms"
  shows "symmetric_dms Ms
    \<and> (\<exists>ec vc. t_get_ec slf (Arr2 D) = Inr (ec, vc) \<and> symmetric vc)"
proof -
  define shells where "shells = self_t_proj_shells slf"
  have pos: "0 < nao" "0 < natm"
    using assms(1) by (simp_all add: constructed_def)
  have po: "is_tensor3 nao natm (dim2 po) po" if "po \<in> set shells" for po
    using constructed_shells(2) [OF assms(1), of po] that by (simp add: shells_def)
  have Ms: "Ms = map (\<lambda>po. proj_block po D) shells"
    using assms(4) proj_dms_blocks [OF assms(1,2)] by (simp add: shells_def)
  have G: "same_shape grad_dms (map (\<lambda>po. proj_block po D) (self_t_proj_shells slf))"
    using assms(6) by (simp add: Ms shells_def)
  have symM: "symmetric_dms Ms"
    unfolding symmetric_dms_def
  proof (intro ballI)
    fix M B assume "M \<in> set Ms" and B: "B \<in> set M"
    then obtain po where mem: "po \<in> set shells" and M: "M = proj_block po D"
      by (auto simp: Ms)
    have "length M = natm"
      using proj_block_tensor3 [OF po [OF mem] pos, of D] by (simp add: M is_tensor3_def)
    with B obtain a where "a < natm" and "B = M ! a"
      by (auto simp: in_set_conv_nth)
    then show "symmetric B"
      using proj_block_symmetric [OF po [OF mem] pos _ assms(2,3)] by (simp add: M)
  qed
  then have symG: "symmetric_dms grad_dms"
    using assms(7) by simp
  define Vs where "Vs = map (\<lambda>(po, g). vc_block po g) (zip shells grad_dms)"
  have "symmetric V \<and> length V = nao" if "V \<in> set Vs" for V
  proof -
    from that obtain k where k: "k < length shells" "k < length grad_dms"
      and V: "V = vc_block (shells ! k) (grad_dms ! k)"
      by (auto simp: Vs_def set_zip)
    have mem: "shells ! k \<in> set shells"
      using k by simp
    have d1: "dim1 (shells ! k) = natm" and l: "length (shells ! k) = nao"
      using dim1_tensor3 [OF po [OF mem] pos(1)] po [OF mem] by (simp_all add: is_tensor3_def)
    have "is_tensor3 (dim1 (shells ! k)) (dim2 (shells ! k)) (dim2 (shells ! k)) (grad_dms ! k)"
      using grad_block_tensor3(1) [OF assms(1) G, of k] k d1 by (simp add: shells_def)
    moreover have "grad_dms ! k \<in> set grad_dms"
      using k by simp
    then have "\<forall>B \<in> set (grad_dms ! k). symmetric B"
      using symG by (simp add: symmetric_dms_def)
    ultimately have "symmetric V"
      unfolding V by (rule vc_block_symmetric)
    then show ?thesis
      by (simp add: V vc_block_def l)
  qed
  then have "symmetric (mat_sum nao nao Vs)"
    by (rule mat_sum_symmetric)
  moreover have "t_get_ec slf (Arr2 D)
      = Inr (ec_of_dms (torch_symeig slf) (self_net slf) Ms, mat_sum nao nao Vs)"
    using t_get_ec_value [OF assms(1,2)] G by (simp add: assms(5) Ms Vs_def shells_def)
  ultimately show ?thesis
    using symM by blast
qed

theorem potential_symmetric_witness:
  "symmetric_dms [[[[21]]], [[[3]]]]
   \<and> (\<exists>ec vc. t_get_ec test_engine (Arr2 [[1, 2], [2, 3]]) = Inr (ec, vc) \<and> symmetric vc)"
proof -
  define G :: "tensor3 list" where "G = [[[[1 / 1000]]], [[[1 / 1000]]]]"
  define Ms :: "tensor3 list" where "Ms = [[[[21]]], [[[3]]]]"
  have 1: "is_matrix 2 2 [[1, 2], [2, 3 :: real]]"
    by (simp add: is_matrix_def)
  have 2: "symmetric [[1, 2], [2, 3]]"
    by (simp add: symmetric_def is_matrix_def less_Suc_eq)
  have 3: "proj_dms (self_t_proj_shells test_engine) (Arr2 [[1, 2], [2, 3]]) = Inr Ms"
    by (simp add: test_engine_proj_dms Ms_def)
  have 4: "G = torch_autograd_grad test_engine
                 (ec_of_dms (torch_symeig test_engine) (self_net test_engine)) Ms"
    by (simp add: test_engine_grad G_def Ms_def)
  have 5: "same_shape G Ms"
    by (simp add: same_shape_def G_def Ms_def)
  have 6: "symmetric_dms Ms \<longrightarrow> symmetric_dms G"
    by (simp add: symmetric_dms_def symmetric_def is_matrix_def G_def)
  show ?thesis
    using potential_symmetric [OF test_engine_constructed 1 2 3 4 5 6] by (simp add: Ms_def)
qed

section \<open>Zero functional\<close>

lemma inner_self_zero:
  assumes "inner_dms G G = 0"
    and "k < length G" and "a < length (G ! k)" and "p < length (G ! k ! a)"
    and "q < length (G ! k ! a ! p)"
  shows "G ! k ! a ! p ! q = 0"
proof -
  define f where "f k a p q = G ! k ! a ! p ! q * G ! k ! a ! p ! q" for k a p q
  have nn: "0 \<le> f k a p q" for k a p q
    by (simp add: f_def)
  have "(\<Sum>k<length G. \<Sum>a<length (G ! k). \<Sum>p<length (G ! k ! a).
            \<Sum>q<length (G ! k ! a ! p). f k a p q) = 0"
    using assms(1) by (simp add: inner_dms_def f_def)
  then have "(\<Sum>a<length (G ! k). \<Sum>p<length (G ! k ! a). \<Sum>q<length (G ! k ! a ! p). f k a p q) = 0"
    using assms(2) by (subst (asm) sum_nonneg_eq_0_iff) (auto intro!: sum_nonneg nn)
  then have "(\<Sum>p<length (G ! k ! a). \<Sum>q<length (G ! k ! a ! p). f k a p q) = 0"
    using assms(3) by (subst (asm) sum_nonneg_eq_0_iff) (auto intro!: sum_nonneg nn)
  then have "(\<Sum>q<length (G ! k ! a ! p). f k a p q) = 0"
    using assms(4) by (subst (asm) sum_nonneg_eq_0_iff) (auto intro!: sum_nonneg nn)
  then have "f k a p q = 0"
    using assms(5) by (subst (asm) sum_nonneg_eq_0_iff) (auto intro!: nn)
  then show ?thesis
    by (simp add: f_def)
qed

lemma gradient_of_zero:
  assumes "is_gradient (\<lambda>Ms. 0) Ms G"
  shows "inner_dms G G = 0"
proof -
  have "same_shape G Ms"
    using assms by (simp add: is_gradient_def)
  then have "((\<lambda>t. 0 :: real) has_real_derivative inner_dms G G) (at 0)"
    using assms by (simp add: is_gradient_def)
  moreover have "((\<lambda>t. 0 :: real) has_real_derivative 0) (at 0)"
    by simp
  ultimately show ?thesis
    by (rule DERIV_unique)
qed

lemma vc_block_zero:
  assumes g: "is_tensor3 (dim1 po) (dim2 po) (dim2 po) gdm"
    and z: "\<And>a p q. a < dim1 po \<Longrightarrow> p < dim2 po \<Longrightarrow> q < dim2 po \<Longrightarrow> gdm ! a ! p ! q = 0"
  shows "vc_block po gdm = replicate (length po) (replicate (length po) 0)"
proof -
  have "vc_block po gdm = map (\<lambda>r. map (\<lambda>s. 0) [0..<length po]) [0..<length po]"
    unfolding vc_block_def by (intro map_cong refl) (simp add: z)
  then show ?thesis
    by (simp add: map_replicate_const)
qed


lemma np_add_zero:
  assumes "is_matrix n n V0"
  shows "np_add V0 (replicate n (replicate n 0)) = Inr V0"
proof -
  have l: "length V0 = n" and d: "dim1 V0 = n"
    using assms by (simp_all add: dim1_square) (simp add: is_matrix_def)
  have row: "map (\<lambda>j. V0 ! i ! j + replicate n (0::real) ! j) [0..<n] = V0 ! i"
    if "i < n" for i
  proof -
    have "length (V0 ! i) = n"
      using assms that by (rule matrix_row)
    then have "map (\<lambda>j. V0 ! i ! j) [0..<n] = V0 ! i"
      using map_nth [of "V0 ! i"] by simp
    moreover have "map (\<lambda>j. V0 ! i ! j + replicate n (0::real) ! j) [0..<n]
        = map (\<lambda>j. V0 ! i ! j) [0..<n]"
      by (intro map_cong refl) simp
    ultimately show ?thesis
      by simp
  qed
  have "map (\<lambda>i. map (\<lambda>j. V0 ! i ! j + replicate n (replicate n 0) ! i ! j) [0..<n]) [0..<n]
      = map (\<lambda>i. V0 ! i) [0..<n]"
    by (intro map_cong refl) (simp add: row)
  also have "\<dots> = V0"
    using map_nth [of V0] by (simp add: l)
  finally have eq: "map (\<lambda>i. map (\<lambda>j. V0 ! i ! j + replicate n (replicate n 0) ! i ! j) [0..<n])
      [0..<n] = V0" .
  show ?thesis
  proof (cases "n = 0")
    case True
    then show ?thesis
      using l by (simp add: np_add_def is_matrix_def)
  next
    case False
    have "is_matrix n n (replicate n (replicate n (0::real)))"
      by (simp add: is_matrix_def)
    with assms have "np_add V0 (replicate n (replicate n 0))
        = Inr (map (\<lambda>i. map (\<lambda>j. V0 ! i ! j + replicate n (replicate n 0) ! i ! j) [0..<n])
            [0..<n])"
      using False by (intro np_add_fit) simp_all
    then show ?thesis
      by (simp only: eq)
  qed
qed

lemma mat_sum_zero:
  assumes "\<And>V. V \<in> set Vs \<Longrightarrow> V = replicate n (replicate n 0)"
  shows "mat_sum n n Vs = replicate n (replicate n 0)"
proof -
  have "Vs ! k ! i ! j = 0" if "k < length Vs" and "i < n" and "j < n" for k i j
    using assms [of "Vs ! k"] that by simp
  then have "mat_sum n n Vs = map (\<lambda>i. map (\<lambda>j. 0) [0..<n]) [0..<n]"
    unfolding mat_sum_def by (intro map_cong refl) simp
  then show ?thesis
    by (simp add: map_replicate_const)
qed

text \<open>
  C8: with a model that evaluates to zero on every descriptor tensor, the correction
  energy is zero, the correction potential is the zero matrix, and \<^verbatim>\<open>get_veff\<close>
  returns the baseline potential \<open>V0\<close> (tagged with the energy zero and with \<open>V0\<close>),
  for every density matrix of the expected size. The gradient that
  \<^verbatim>\<open>torch.autograd.grad\<close> returns is the gradient of the zero function.
\<close>

theorem zero_functional:
  assumes "constructed nao natm slf" and "is_matrix nao nao D"
    and "\<forall>eigs. self_net slf eigs = 0"
    and "proj_dms (self_t_proj_shells slf) (Arr2 D) = Inr Ms"
    and "is_gradient (ec_of_dms (torch_symeig slf) (self_net slf)) Ms
           (torch_autograd_grad slf (ec_of_dms (torch_symeig slf) (self_net slf)) Ms)"
    and "self_get_veff0 slf (case mol of None \<Rightarrow> self_mol slf | Some m \<Rightarrow> m) (Arr2 D) dm_last
           (case vhf_last of None \<Rightarrow> None | Some v \<Rightarrow> tag_v0 v) hermi = Inr V0"
    and "is_matrix nao nao V0"
  shows "get_ec slf (Some (Arr2 D)) = Inr (0, replicate nao (replicate nao 0))
    \<and> get_veff slf mol (Some (Arr2 D)) dm_last vhf_last hermi
        = Inr \<lparr> arr = V0, tag_ec = Some 0, tag_v0 = Some V0 \<rparr>"
proof -
  define shells where "shells = self_t_proj_shells slf"
  define F where "F = ec_of_dms (torch_symeig slf) (self_net slf)"
  define G where "G = torch_autograd_grad slf F Ms"
  have pos: "0 < nao" "0 < natm"
    using assms(1) by (simp_all add: constructed_def)
  have F0: "F = (\<lambda>Ms. 0)"
    using assms(3) by (simp add: F_def ec_of_dms_def fun_eq_iff)
  have Ms: "Ms = map (\<lambda>po. proj_block po D) shells"
    using assms(4) proj_dms_blocks [OF assms(1,2)] by (simp add: shells_def)
  have grad: "is_gradient (\<lambda>Ms. 0) Ms G"
    using assms(5) by (simp add: G_def F_def [symmetric] F0)
  then have GM: "same_shape G (map (\<lambda>po. proj_block po D) (self_t_proj_shells slf))"
    by (simp add: is_gradient_def Ms shells_def)
  have inner: "inner_dms G G = 0"
    using grad by (rule gradient_of_zero)
  define Vs where "Vs = map (\<lambda>(po, g). vc_block po g) (zip shells G)"
  have "V = replicate nao (replicate nao 0)" if "V \<in> set Vs" for V
  proof -
    from that obtain k where k: "k < length shells" "k < length G"
      and V: "V = vc_block (shells ! k) (G ! k)"
      by (auto simp: Vs_def set_zip)
    have mem: "shells ! k \<in> set shells"
      using k by simp
    have po: "is_tensor3 nao natm (dim2 (shells ! k)) (shells ! k)"
      using constructed_shells(2) [OF assms(1), of "shells ! k"] mem by (simp add: shells_def)
    have d1: "dim1 (shells ! k) = natm" and l: "length (shells ! k) = nao"
      using dim1_tensor3 [OF po pos(1)] po by (simp_all add: is_tensor3_def)
    have g: "is_tensor3 (dim1 (shells ! k)) (dim2 (shells ! k)) (dim2 (shells ! k)) (G ! k)"
      using grad_block_tensor3(1) [OF assms(1) GM, of k] k d1 by (simp add: shells_def)
    have "G ! k ! a ! p ! q = 0"
      if "a < dim1 (shells ! k)" and "p < dim2 (shells ! k)" and "q < dim2 (shells ! k)"
      for a p q
    proof -
      have "length (G ! k) = dim1 (shells ! k)"
        using g by (simp add: is_tensor3_def)
      moreover have "length (G ! k ! a) = dim2 (shells ! k)"
        using tensor3_block(2) [OF g that(1)] .
      moreover have "length (G ! k ! a ! p) = dim2 (shells ! k)"
        using tensor3_row [OF g that(1,2)] .
      ultimately show ?thesis
        using inner k(2) that by (intro inner_self_zero) simp_all
    qed
    with g have "vc_block (shells ! k) (G ! k)
        = replicate (length (shells ! k)) (replicate (length (shells ! k)) 0)"
      by (rule vc_block_zero)
    then show ?thesis
      by (simp add: V l)
  qed
  then have "mat_sum nao nao Vs = replicate nao (replicate nao 0)"
    by (rule mat_sum_zero)
  moreover have "t_get_ec slf (Arr2 D) = Inr (F Ms, mat_sum nao nao Vs)"
    using t_get_ec_value [OF assms(1,2)] GM
    by (simp add: G_def F_def Ms Vs_def shells_def)
  ultimately have ec: "get_ec slf (Some (Arr2 D)) = Inr (0, replicate nao (replicate nao 0))"
    by (simp add: get_ec_def F0)
  then show ?thesis
    using assms(6) np_add_zero [OF assms(7)] by (simp add: get_veff_def)
qed


lemma zero_engine_constructed: "constructed 2 1 zero_engine"
  using test_engine_constructed by (simp add: constructed_def zero_engine_def)

theorem zero_functional_witness:
  "get_ec zero_engine (Some (Arr2 [[1, 2], [2, 3]])) = Inr (0, [[0, 0], [0, 0]])
   \<and> get_veff zero_engine None (Some (Arr2 [[1, 2], [2, 3]])) None None 1
       = Inr \<lparr> arr = [[1, 1], [1, 1]], tag_ec = Some 0, tag_v0 = Some [[1, 1], [1, 1]] \<rparr>"
proof -
  define Ms :: "tensor3 list" where "Ms = [[[[21]]], [[[3]]]]"
  have fields: "self_net zero_engine = zero_model" "torch_autograd_grad zero_engine = zero_grad"
    "self_t_proj_shells zero_engine = self_t_proj_shells test_engine"
    "self_get_veff0 zero_engine = test_veff0"
    by (simp_all add: zero_engine_def test_engine_def)
  have 1: "is_matrix 2 2 [[1, 2], [2, 3 :: real]]"
    by (simp add: is_matrix_def)
  have 2: "\<forall>eigs. self_net zero_engine eigs = 0"
    by (simp add: fields zero_model_def)
  have 3: "proj_dms (self_t_proj_shells zero_engine) (Arr2 [[1, 2], [2, 3]]) = Inr Ms"
    by (simp add: fields test_engine_proj_dms Ms_def)
  have 4: "is_gradient (ec_of_dms (torch_symeig zero_engine) (self_net zero_engine)) Ms
      (torch_autograd_grad zero_engine
         (ec_of_dms (torch_symeig zero_engine) (self_net zero_engine)) Ms)"
    by (simp add: is_gradient_def fields ec_of_dms_def zero_model_def zero_grad_def Ms_def
        same_shape_def inner_dms_def)
  have 5: "self_get_veff0 zero_engine (case None of None \<Rightarrow> self_mol zero_engine | Some m \<Rightarrow> m)
      (Arr2 [[1, 2], [2, 3]]) None (case None of None \<Rightarrow> None | Some v \<Rightarrow> tag_v0 v) 1
      = Inr [[1, 1], [1, 1]]"
    by (simp add: fields test_veff0_def)
  have 6: "is_matrix 2 2 [[1, 1], [1, 1 :: real]]"
    by (simp add: is_matrix_def)
  show ?thesis
    using zero_functional [OF zero_engine_constructed 1 2 3 4 5 6]
    by (simp add: numeral_2_eq_2)
qed

section \<open>The correction potential as a derivative\<close>




section \<open>Construction\<close>


lemma init_fails:
  assumes "is_tensor3 nao natm nproj P" and "0 < nao" and "0 < natm"
    and "sum_list (shell_sec basis) \<noteq> nproj"
  shows "init eig grad veff0 rdm1 hcore mol model basis P = Inl RuntimeError"
  using assms by (simp add: init_def t_proj_shells_def torch_split_def dim2_tensor3)

lemma default_shell_sec:
  "shell_sec DEFAULT_BASIS = replicate 12 1 @ replicate 12 3 @ replicate 12 5"
  by (simp add: shell_sec_def DEFAULT_BASIS_def table_def zeta_def eval_nat_numeral)

lemma sequence_err_Inr:
  "sequence_err xs = Inr vs \<Longrightarrow> xs = map Inr vs"
  by (induction xs arbitrary: vs) (auto split: sum.splits)

section \<open>Descriptors and the shells of the specification\<close>

lemma not_eigenvalue_3:
  "\<not> (\<exists>xs. sorted_eigenvalues [[21, 8], [8, 3]] xs \<and> 3 \<in> set xs)"
proof
  assume "\<exists>xs. sorted_eigenvalues [[21, 8], [8, 3]] xs \<and> 3 \<in> set xs"
  then obtain xs V where len: "length xs = 2" and three: "3 \<in> set xs"
    and V: "is_matrix 2 2 V"
    and orth: "mat_mul (mat_transpose V) V = identity_mat 2"
    and eig: "mat_mul [[21, 8], [8, 3]] V = mat_mul V (diag_mat xs)"
    unfolding sorted_eigenvalues_def by (auto simp: numeral_2_eq_2)
  from len obtain x y where xs: "xs = [x, y]"
    by (auto simp: length_Suc_conv numeral_2_eq_2)
  from V obtain a b c d where Vd: "V = [[a, b], [c, d]]"
    by (auto simp: is_matrix_def length_Suc_conv numeral_2_eq_2)
  have o: "a * a + c * c = 1" "b * b + d * d = 1"
    using orth
    by (simp_all add: Vd mat_mul_def mat_transpose_def identity_mat_def dim1_def
        numeral_2_eq_2)
  have e: "21 * a + 8 * c = a * x" "21 * b + 8 * d = b * y"
    "8 * a + 3 * c = c * x" "8 * b + 3 * d = d * y"
    using eig
    by (simp_all add: Vd xs mat_mul_def diag_mat_def dim1_def numeral_2_eq_2)
  from three consider "x = 3" | "y = 3"
    by (auto simp: xs)
  then show False
  proof cases
    case 1
    then have "a = 0" using e(3) by simp
    then have "c = 0" using e(1) 1 by simp
    then show False using o(1) \<open>a = 0\<close> by simp
  next
    case 2
    then have "b = 0" using e(4) by simp
    then have "d = 0" using e(2) 2 by simp
    then show False using o(2) \<open>b = 0\<close> by simp
  qed
qed

text \<open>
  C3, as the specification states it, with the shell blocks of the specification: one
  block per shell \<open>l\<close>, holding all its radial functions. For the shell \<open>l = 0\<close> with
  two radial functions the block of an atom has width 2 and its projected density
  matrix is 2 by 2; the code contracts the two radial functions apart, and the
  descriptor 3 that it returns is not an eigenvalue of that matrix.
\<close>

theorem descriptor_extraction_counterexample:
  "make_eig test_engine (Some (Arr2 [[1, 2], [2, 3]])) = Inr [[21, 3]]
   \<and> spec_shell_blocks (self_basis test_engine) (self_t_proj_ovlp test_engine)
       = Inr [[[[1, 0]], [[2, 1]]]]
   \<and> projected_density [[[1, 0]], [[2, 1]]] [[1, 2], [2, 3]] 0 = [[21, 8], [8, 3]]
   \<and> \<not> (\<exists>xs. sorted_eigenvalues [[21, 8], [8, 3]] xs \<and> 3 \<in> set xs)"
proof -
  have "make_eig test_engine (Some (Arr2 [[1, 2], [2, 3]])) = Inr [[21, 3]]"
    by (simp add: test_engine_def make_eig_def proj_dms_def einsum_rap_rs_saq_def broadcastable_def bsize_def bidx_def
        is_matrix_def dim1_def dim2_def torch_cat_def cat_rows_def symeig1_def)
  moreover have "spec_shell_blocks (self_basis test_engine) (self_t_proj_ovlp test_engine)
       = Inr [[[[1, 0]], [[2, 1]]]]"
    by (simp add: test_engine_def test_basis_def spec_shell_blocks_def spec_shell_widths_def
        torch_split_def dim1_def dim2_def)
  moreover have "projected_density [[[1, 0]], [[2, 1]]] [[1, 2], [2, 3]] 0 = [[21, 8], [8, 3]]"
    by (simp add: projected_density_def mat_mul_def mat_transpose_def atom_slice_def dim1_def
        numeral_2_eq_2)
  ultimately show ?thesis
    using not_eigenvalue_3 by simp
qed

section \<open>The correction potential along a direction\<close>








section \<open>The engine with a block of width 3\<close>



lemma sum_list_insort:
  fixes g :: "real \<Rightarrow> real"
  shows "(\<Sum>x\<leftarrow>insort y xs. g x) = g y + (\<Sum>x\<leftarrow>xs. g x)"
  by (induction xs) simp_all

lemma sum_list_sort:
  fixes g :: "real \<Rightarrow> real"
  shows "(\<Sum>x\<leftarrow>sort xs. g x) = (\<Sum>x\<leftarrow>xs. g x)"
  by (induction xs) (simp_all add: sum_list_insort)

text \<open>
  The values of \<open>symeig3\<close> are three, in ascending order; each is a root of
  \<open>((a - x) (c - x) - b\<^sup>2) (e - x)\<close>, the characteristic polynomial of the symmetric
  matrix \<open>[[a, b, 0], [b, c, 0], [0, 0, e]]\<close>, and their sum is its trace.
\<close>

lemma symeig3_roots:
  assumes "length M = 3"
  defines "a \<equiv> M ! 0 ! 0" and "b \<equiv> M ! 0 ! 1" and "c \<equiv> M ! 1 ! 1" and "e \<equiv> M ! 2 ! 2"
  shows "sorted (symeig3 M)" and "length (symeig3 M) = 3"
    and "sum_list (symeig3 M) = a + c + e"
    and "\<forall>x \<in> set (symeig3 M). ((a - x) * (c - x) - b\<^sup>2) * (e - x) = 0"
proof -
  define d where "d = sqrt (((a - c) / 2)\<^sup>2 + b\<^sup>2)"
  have U: "upper_sym M ! 0 ! 0 = a" "upper_sym M ! 0 ! Suc 0 = b"
    "upper_sym M ! Suc 0 ! Suc 0 = c" "upper_sym M ! 2 ! 2 = e"
    using assms(1) by (simp_all add: upper_sym_def a_def b_def c_def e_def numeral_2_eq_2)
  have d2: "d\<^sup>2 = ((a - c) / 2)\<^sup>2 + b\<^sup>2"
    unfolding d_def by (simp add: real_sqrt_pow2)
  have eig: "symeig3 M = sort [(a + c) / 2 - d, (a + c) / 2 + d, e]"
    by (simp add: symeig3_def Let_def U d_def)
  show "sorted (symeig3 M)" and "length (symeig3 M) = 3"
    unfolding eig by simp_all
  have "sum_list (symeig3 M) = (\<Sum>x\<leftarrow>sort [(a + c) / 2 - d, (a + c) / 2 + d, e]. x)"
    by (simp add: eig)
  also have "\<dots> = a + c + e"
    unfolding sum_list_sort by simp
  finally show "sum_list (symeig3 M) = a + c + e" .
  have r1: "(a - ((a + c) / 2 - d)) * (c - ((a + c) / 2 - d)) - b\<^sup>2 = 0"
  proof -
    have "(a - ((a + c) / 2 - d)) * (c - ((a + c) / 2 - d)) = d\<^sup>2 - ((a - c) / 2)\<^sup>2"
      by (simp add: power2_eq_square field_simps)
    then show ?thesis
      by (simp add: d2)
  qed
  have r2: "(a - ((a + c) / 2 + d)) * (c - ((a + c) / 2 + d)) - b\<^sup>2 = 0"
  proof -
    have "(a - ((a + c) / 2 + d)) * (c - ((a + c) / 2 + d)) = d\<^sup>2 - ((a - c) / 2)\<^sup>2"
      by (simp add: power2_eq_square field_simps)
    then show ?thesis
      by (simp add: d2)
  qed
  have "set (symeig3 M) = {(a + c) / 2 - d, (a + c) / 2 + d, e}"
    unfolding eig set_sort by simp
  then show "\<forall>x \<in> set (symeig3 M). ((a - x) * (c - x) - b\<^sup>2) * (e - x) = 0"
    using r1 r2 by auto
qed

lemma square_model_symeig3:
  assumes "length M = 3"
  shows "square_model [[symeig3 M]] = (M ! 0 ! 0)\<^sup>2 + (M ! 1 ! 1)\<^sup>2 + 2 * (M ! 0 ! 1)\<^sup>2 + (M ! 2 ! 2)\<^sup>2"
proof -
  define a b c e where "a = M ! 0 ! 0" and "b = M ! 0 ! 1" and "c = M ! 1 ! 1" and "e = M ! 2 ! 2"
  define d where "d = sqrt (((a - c) / 2)\<^sup>2 + b\<^sup>2)"
  have U: "upper_sym M ! 0 ! 0 = a" "upper_sym M ! 0 ! Suc 0 = b"
    "upper_sym M ! Suc 0 ! Suc 0 = c" "upper_sym M ! 2 ! 2 = e"
    using assms by (simp_all add: upper_sym_def a_def b_def c_def e_def numeral_2_eq_2)
  have d2: "d\<^sup>2 = ((a - c) / 2)\<^sup>2 + b\<^sup>2"
    unfolding d_def by (simp add: real_sqrt_pow2)
  have "square_model [[symeig3 M]]
      = (\<Sum>x\<leftarrow>sort [(a + c) / 2 - d, (a + c) / 2 + d, e]. x\<^sup>2)"
    by (simp add: square_model_def symeig3_def Let_def U d_def)
  also have "\<dots> = ((a + c) / 2 - d)\<^sup>2 + ((a + c) / 2 + d)\<^sup>2 + e\<^sup>2"
    unfolding sum_list_sort by simp
  also have "\<dots> = 2 * ((a + c) / 2)\<^sup>2 + 2 * d\<^sup>2 + e\<^sup>2"
    by (simp add: power2_eq_square algebra_simps)
  also have "\<dots> = a\<^sup>2 + c\<^sup>2 + 2 * b\<^sup>2 + e\<^sup>2"
    unfolding d2 by (simp add: power2_eq_square field_simps)
  finally show ?thesis
    by (simp add: a_def b_def c_def e_def)
qed






text \<open>
  The gradient of this engine is no gradient along every direction: along the unit of
  the entry \<open>0, 1\<close> of the block, which is not symmetric, the energy has the
  derivative 8 and the gradient the entry 4.
\<close>

lemma p_engine_not_gradient:
  "\<not> is_gradient (ec_of_dms symeig3 square_model) [[[[1, 2, 0], [2, 3, 0], [0, 0, 0]]]]
     (square_grad (ec_of_dms symeig3 square_model) [[[[1, 2, 0], [2, 3, 0], [0, 0, 0]]]])"
proof
  define H :: "tensor3 list" where "H = [[[[0, 1, 0], [0, 0, 0], [0, 0, 0]]]]"
  assume "is_gradient (ec_of_dms symeig3 square_model) [[[[1, 2, 0], [2, 3, 0], [0, 0, 0]]]]
     (square_grad (ec_of_dms symeig3 square_model) [[[[1, 2, 0], [2, 3, 0], [0, 0, 0]]]])"
  moreover have "same_shape H [[[[1, 2, 0], [2, 3, 0], [0, 0, 0]]]]"
    by (simp add: same_shape_def H_def)
  ultimately have d: "((\<lambda>t. ec_of_dms symeig3 square_model
        (add_dms [[[[1, 2, 0], [2, 3, 0], [0, 0, 0]]]] (scale_dms t H)))
      has_real_derivative
        inner_dms (square_grad (ec_of_dms symeig3 square_model)
          [[[[1, 2, 0], [2, 3, 0], [0, 0, 0]]]]) H) (at 0)"
    by (simp add: is_gradient_def)
  have F: "ec_of_dms symeig3 square_model
      (add_dms [[[[1, 2, 0], [2, 3, 0], [0, 0, 0]]]] (scale_dms t H)) = 10 + 2 * (2 + t)\<^sup>2" for t
    by (simp add: H_def ec_of_dms_def add_dms_def scale_dms_def cat_rows_def
        square_model_symeig3)
  have I: "inner_dms (square_grad (ec_of_dms symeig3 square_model)
      [[[[1, 2, 0], [2, 3, 0], [0, 0, 0]]]]) H = 4"
    by (simp add: H_def inner_dms_def square_grad_def upper_sym_def eval_nat_numeral
        lessThan_Suc)
  have "((\<lambda>t. 10 + 2 * (2 + t)\<^sup>2) has_real_derivative 8) (at (0 :: real))"
    by (auto intro!: derivative_eq_intros)
  moreover have "((\<lambda>t. 10 + 2 * (2 + t)\<^sup>2) has_real_derivative 4) (at (0 :: real))"
    using d unfolding F I .
  ultimately show False
    using DERIV_unique by fastforce
qed




section \<open>Arrays of unexpected shape\<close>

lemma sequence_err_hd_Inl:
  "xs \<noteq> [] \<Longrightarrow> f (hd xs) = Inl e \<Longrightarrow> sequence_err (map f xs) = Inl e"
  by (cases xs) simp_all

lemma ndim_2: "ndim dm = 2 \<longleftrightarrow> (\<exists>D. dm = Arr2 D)"
  by (cases dm) simp_all

lemma einsum_rank_fails:
  assumes "ndim dm \<noteq> 2"
  shows "einsum_rap_rs_saq po dm po = Inl RuntimeError"
  using assms by (cases dm) (simp_all add: einsum_rap_rs_saq_def)

lemma einsum_misfit_fails:
  assumes "is_matrix R S D" and "0 < R"
    and "\<not> broadcastable (length po) R \<or> \<not> broadcastable (length po) S"
  shows "einsum_rap_rs_saq po (Arr2 D) po = Inl RuntimeError"
proof -
  have "length D = R" and "dim1 D = S"
    using assms(1,2) dim1_matrix [OF assms(1,2)] by (simp_all add: is_matrix_def)
  then show ?thesis
    using assms(3) by (auto simp: einsum_rap_rs_saq_def)
qed

lemma broadcast_to_matrix: "is_matrix n m (broadcast_to n m D)"
  by (simp add: broadcast_to_def is_matrix_def)

lemma einsum_broadcast:
  assumes D: "is_matrix R S D" and pos: "0 < R" "0 < S" "0 < length po"
    and R: "R = 1 \<or> R = length po" and S: "S = 1 \<or> S = length po"
  shows "einsum_rap_rs_saq po (Arr2 D) po
       = Inr (proj_block po (broadcast_to (length po) (length po) D))"
proof -
  define n where "n = length po"
  have l: "length D = R" and d: "dim1 D = S"
    using D pos(1) dim1_matrix [OF D pos(1)] by (simp_all add: is_matrix_def)
  have b: "broadcastable n R" "broadcastable n S"
    using R S by (auto simp: broadcastable_def n_def)
  have bs: "bsize n R = n" "bsize n S = n"
    using R S by (auto simp: bsize_def n_def)
  have rect: "is_matrix (length D) (dim1 D) D"
    using D by (simp add: l d)
  have entry: "(\<Sum>r<n. \<Sum>s<n. po ! bidx n r ! bidx (dim1 po) a ! p * D ! bidx R r ! bidx S s
          * po ! bidx n s ! bidx (dim1 po) a ! q)
      = (\<Sum>r<n. \<Sum>s<n. po ! r ! a ! p * broadcast_to n n D ! r ! s * po ! s ! a ! q)"
    if "a < dim1 po" for a p q
    using that by (intro sum.cong refl) (simp add: bidx_less broadcast_to_def l d)
  have "einsum_rap_rs_saq po (Arr2 D) po
      = Inr (map (\<lambda>a. map (\<lambda>p. map (\<lambda>q.
          (\<Sum>r<n. \<Sum>s<n. po ! bidx n r ! bidx (dim1 po) a ! p * D ! bidx R r ! bidx S s
              * po ! bidx n s ! bidx (dim1 po) a ! q))
          [0..<dim2 po]) [0..<dim2 po]) [0..<dim1 po])"
    using rect b by (simp add: einsum_rap_rs_saq_def l d bs n_def [symmetric])
  also have "\<dots> = Inr (proj_block po (broadcast_to n n D))"
    unfolding proj_block_def n_def [symmetric]
    by (simp add: entry cong: map_cong)
  finally show ?thesis
    by (simp add: n_def)
qed

lemma proj_dms_misfit:
  assumes c: "constructed nao natm slf"
    and f: "\<And>po. length po = nao \<Longrightarrow> einsum_rap_rs_saq po dm po = Inl RuntimeError"
  shows "proj_dms (self_t_proj_shells slf) dm = Inl RuntimeError"
proof -
  have ne: "self_t_proj_shells slf \<noteq> []"
    using constructed_shells(1) [OF c] .
  then have "hd (self_t_proj_shells slf) \<in> set (self_t_proj_shells slf)"
    by simp
  then have "length (hd (self_t_proj_shells slf)) = nao"
    using constructed_shells(2) [OF c] by (simp add: is_tensor3_def)
  then have "einsum_rap_rs_saq (hd (self_t_proj_shells slf)) dm (hd (self_t_proj_shells slf))
      = Inl RuntimeError"
    by (rule f)
  then show ?thesis
    unfolding proj_dms_def using ne by (intro sequence_err_hd_Inl)
qed

lemma proj_dms_broadcast:
  assumes c: "constructed nao natm slf"
    and D: "is_matrix R S D" and pos: "0 < R" "0 < S"
    and R: "R = 1 \<or> R = nao" and S: "S = 1 \<or> S = nao"
  shows "proj_dms (self_t_proj_shells slf) (Arr2 D)
       = proj_dms (self_t_proj_shells slf) (Arr2 (broadcast_to nao nao D))"
proof -
  have nao: "0 < nao"
    using c by (simp add: constructed_def)
  have "einsum_rap_rs_saq po (Arr2 D) po = Inr (proj_block po (broadcast_to nao nao D))"
    if "po \<in> set (self_t_proj_shells slf)" for po
  proof -
    have "length po = nao"
      using constructed_shells(2) [OF c that] by (simp add: is_tensor3_def)
    then show ?thesis
      using einsum_broadcast [OF D pos, of po] nao R S by simp
  qed
  then have "proj_dms (self_t_proj_shells slf) (Arr2 D)
      = Inr (map (\<lambda>po. proj_block po (broadcast_to nao nao D)) (self_t_proj_shells slf))"
    unfolding proj_dms_def by (rule sequence_err_map_Inr)
  then show ?thesis
    using proj_dms_blocks [OF c broadcast_to_matrix, of D] by simp
qed

text \<open>
  C7, as the specification states it: every density matrix that is not of the expected
  rank or size makes the descriptor extraction fail, with one error kind, a shape error.
  The source has one check, the \<^verbatim>\<open>assert\<close> of \<^verbatim>\<open>get_veff\<close>, on the rank only. On
  the small engine, with two orbitals, the 1 by 1 matrix \<open>[[5]]\<close> is accepted: the
  contraction broadcasts it, and \<^verbatim>\<open>make_eig\<close> and \<^verbatim>\<open>get_ec\<close> return the
  descriptors, the energy and the potential of \<open>[[5, 5], [5, 5]]\<close>. Where the engine
  does fail, the errors are of two kinds: a vector passed to \<^verbatim>\<open>get_veff\<close> raises
  \<open>AssertionError\<close>, a 2 by 3 matrix passed to \<^verbatim>\<open>make_eig\<close> or \<^verbatim>\<open>get_ec\<close>
  raises the \<open>RuntimeError\<close> of the contraction.
\<close>

theorem shape_error_counterexample:
  "make_eig test_engine (Some (Arr2 [[5]])) = Inr [[45, 5]]
   \<and> get_ec test_engine (Some (Arr2 [[5]]))
       = Inr (1 / 20, [[1 / 1000, 1 / 500], [1 / 500, 1 / 200]])
   \<and> \<not> has_shape2 2 2 (Arr2 [[5]])
   \<and> get_veff test_engine None (Some (Arr1 [1, 2])) None None 1 = Inl AssertionError
   \<and> make_eig test_engine (Some (Arr2 [[1, 2, 3], [2, 3, 4]])) = Inl RuntimeError
   \<and> get_ec test_engine (Some (Arr2 [[1, 2, 3], [2, 3, 4]])) = Inl RuntimeError
   \<and> \<not> has_shape2 2 2 (Arr1 [1, 2])
   \<and> \<not> has_shape2 2 2 (Arr2 [[1, 2, 3], [2, 3, 4]])
   \<and> AssertionError \<noteq> RuntimeError"
proof -
  have "make_eig test_engine (Some (Arr2 [[5]])) = Inr [[45, 5]]"
    by (simp add: test_engine_def make_eig_def proj_dms_def einsum_rap_rs_saq_def
        broadcastable_def bsize_def bidx_def is_matrix_def dim1_def dim2_def torch_cat_def
        cat_rows_def symeig1_def lessThan_Suc eval_nat_numeral)
  moreover have "get_ec test_engine (Some (Arr2 [[5]]))
      = Inr (1 / 20, [[1 / 1000, 1 / 500], [1 / 500, 1 / 200]])"
    by (simp add: get_ec_def test_engine_def t_get_ec_def t_ceig_def proj_dms_def
        einsum_rap_rs_saq_def broadcastable_def bsize_def bidx_def
        is_matrix_def is_tensor3_def dim1_def dim2_def dim3_def dim4_def torch_cat_def
        cat_rows_def symeig1_def test_model_def test_grad_def ec_of_dms_def
        einsum_rsapq_apq_def stack_sum_def lessThan_Suc eval_nat_numeral)
  moreover have "make_eig test_engine (Some (Arr2 [[1, 2, 3], [2, 3, 4]])) = Inl RuntimeError"
    and "get_ec test_engine (Some (Arr2 [[1, 2, 3], [2, 3, 4]])) = Inl RuntimeError"
    by (simp_all add: test_engine_def make_eig_def get_ec_def t_get_ec_def proj_dms_def
        einsum_rap_rs_saq_def broadcastable_def is_matrix_def dim1_def)
  moreover have "get_veff test_engine None (Some (Arr1 [1, 2])) None None 1 = Inl AssertionError"
    by (simp add: get_veff_def)
  ultimately show ?thesis
    by (simp add: is_matrix_def)
qed

text \<open>
  C7, amended: the descriptor extraction returns for every density matrix of the
  expected shape \<open>nao x nao\<close>. The engine checks the rank in \<^verbatim>\<open>get_veff\<close> only, where
  an array that has not two dimensions fails with an \<open>AssertionError\<close> before anything is
  computed; \<^verbatim>\<open>make_eig\<close> and \<^verbatim>\<open>get_ec\<close> fail on such an array with the
  \<open>RuntimeError\<close> of the contraction. The size is checked nowhere in the source. With
  more than one orbital, a matrix with an axis whose size is neither \<open>nao\<close> nor 1 makes
  \<^verbatim>\<open>make_eig\<close> and \<^verbatim>\<open>get_ec\<close> fail with the \<open>RuntimeError\<close> of the contraction,
  and \<^verbatim>\<open>get_veff\<close> with the error of the baseline solver if that fails, and with the
  \<open>RuntimeError\<close> otherwise. A matrix whose axes have the sizes \<open>nao\<close> or 1 is
  accepted, whatever its size: an axis of size 1 is broadcast, and \<^verbatim>\<open>make_eig\<close> and
  \<^verbatim>\<open>get_ec\<close> return what they return for the \<open>nao x nao\<close> matrix that repeats its
  rows or columns.
\<close>

theorem shape_failures:
  assumes "constructed nao natm slf"
  shows "(has_shape2 nao nao dm \<longrightarrow> (\<exists>desc. make_eig slf (Some dm) = Inr desc))
    \<and> (ndim dm \<noteq> 2 \<longrightarrow>
          make_eig slf (Some dm) = Inl RuntimeError \<and> get_ec slf (Some dm) = Inl RuntimeError
          \<and> get_veff slf mol (Some dm) dm_last vhf_last hermi = Inl AssertionError)
    \<and> (is_matrix R S D \<and> 0 < R \<and> nao \<noteq> 1
         \<and> ((R \<noteq> 1 \<and> R \<noteq> nao) \<or> (S \<noteq> 1 \<and> S \<noteq> nao)) \<longrightarrow>
          make_eig slf (Some (Arr2 D)) = Inl RuntimeError
          \<and> get_ec slf (Some (Arr2 D)) = Inl RuntimeError
          \<and> get_veff slf mol (Some (Arr2 D)) dm_last vhf_last hermi
            = (case self_get_veff0 slf (case mol of None \<Rightarrow> self_mol slf | Some m \<Rightarrow> m)
                      (Arr2 D) dm_last (case vhf_last of None \<Rightarrow> None | Some v \<Rightarrow> tag_v0 v)
                      hermi of
                 Inl e \<Rightarrow> Inl e
               | Inr v0 \<Rightarrow> Inl RuntimeError))
    \<and> (is_matrix R S D \<and> 0 < R \<and> 0 < S \<and> (R = 1 \<or> R = nao) \<and> (S = 1 \<or> S = nao) \<longrightarrow>
          (\<exists>desc. make_eig slf (Some (Arr2 D)) = Inr desc)
          \<and> make_eig slf (Some (Arr2 D)) = make_eig slf (Some (Arr2 (broadcast_to nao nao D)))
          \<and> get_ec slf (Some (Arr2 D)) = get_ec slf (Some (Arr2 (broadcast_to nao nao D))))"
proof (intro conjI impI)
  assume "has_shape2 nao nao dm"
  then obtain D where "dm = Arr2 D" and "is_matrix nao nao D"
    by (cases dm) simp_all
  then show "\<exists>desc. make_eig slf (Some dm) = Inr desc"
    using make_eig_value [OF assms, of D] by simp
next
  assume r: "ndim dm \<noteq> 2"
  then have "proj_dms (self_t_proj_shells slf) dm = Inl RuntimeError"
    by (intro proj_dms_misfit [OF assms] einsum_rank_fails)
  then show "make_eig slf (Some dm) = Inl RuntimeError"
    and "get_ec slf (Some dm) = Inl RuntimeError"
    by (simp_all add: make_eig_def get_ec_def t_get_ec_def)
  from r show "get_veff slf mol (Some dm) dm_last vhf_last hermi = Inl AssertionError"
    by (simp add: get_veff_def)
next
  assume a: "is_matrix R S D \<and> 0 < R \<and> nao \<noteq> 1
      \<and> ((R \<noteq> 1 \<and> R \<noteq> nao) \<or> (S \<noteq> 1 \<and> S \<noteq> nao))"
  then have "\<not> broadcastable nao R \<or> \<not> broadcastable nao S"
    by (auto simp: broadcastable_def)
  then have "einsum_rap_rs_saq po (Arr2 D) po = Inl RuntimeError" if "length po = nao" for po
    using a that by (intro einsum_misfit_fails [of R S]) simp_all
  then have p: "proj_dms (self_t_proj_shells slf) (Arr2 D) = Inl RuntimeError"
    by (rule proj_dms_misfit [OF assms])
  then show "make_eig slf (Some (Arr2 D)) = Inl RuntimeError"
    and e: "get_ec slf (Some (Arr2 D)) = Inl RuntimeError"
    by (simp_all add: make_eig_def get_ec_def t_get_ec_def)
  show "get_veff slf mol (Some (Arr2 D)) dm_last vhf_last hermi
            = (case self_get_veff0 slf (case mol of None \<Rightarrow> self_mol slf | Some m \<Rightarrow> m)
                      (Arr2 D) dm_last (case vhf_last of None \<Rightarrow> None | Some v \<Rightarrow> tag_v0 v)
                      hermi of
                 Inl e \<Rightarrow> Inl e
               | Inr v0 \<Rightarrow> Inl RuntimeError)"
    using e by (simp add: get_veff_def split: sum.splits)
next
  assume a: "is_matrix R S D \<and> 0 < R \<and> 0 < S \<and> (R = 1 \<or> R = nao) \<and> (S = 1 \<or> S = nao)"
  then have p: "proj_dms (self_t_proj_shells slf) (Arr2 D)
      = proj_dms (self_t_proj_shells slf) (Arr2 (broadcast_to nao nao D))"
    by (intro proj_dms_broadcast [OF assms, of R S]) simp_all
  then show m: "make_eig slf (Some (Arr2 D)) = make_eig slf (Some (Arr2 (broadcast_to nao nao D)))"
    by (simp add: make_eig_def)
  show "\<exists>desc. make_eig slf (Some (Arr2 D)) = Inr desc"
    unfolding m using make_eig_value [OF assms broadcast_to_matrix, of D] by simp
  have t: "t_ceig slf (Arr2 D) = t_ceig slf (Arr2 (broadcast_to nao nao D))"
    by (simp add: t_ceig_def p)
  have "t_get_ec slf (Arr2 D) = t_get_ec slf (Arr2 (broadcast_to nao nao D))"
    unfolding t_get_ec_def p t by (rule refl)
  then show "get_ec slf (Some (Arr2 D)) = get_ec slf (Some (Arr2 (broadcast_to nao nao D)))"
    by (simp add: get_ec_def)
qed

theorem shape_failures_witness:
  "(\<exists>desc. make_eig test_engine (Some (Arr2 [[1, 2], [2, 3]])) = Inr desc)
   \<and> make_eig test_engine (Some (Arr3 [[[1]]])) = Inl RuntimeError
   \<and> get_ec test_engine (Some (Arr3 [[[1]]])) = Inl RuntimeError
   \<and> get_veff test_engine None (Some (Arr3 [[[1]]])) None None 1 = Inl AssertionError
   \<and> make_eig test_engine (Some (Arr2 [[1, 2, 3], [2, 3, 4]])) = Inl RuntimeError
   \<and> get_ec test_engine (Some (Arr2 [[1, 2, 3], [2, 3, 4]])) = Inl RuntimeError
   \<and> get_veff test_engine None (Some (Arr2 [[1, 2, 3], [2, 3, 4]])) None None 1
       = Inl RuntimeError
   \<and> (\<exists>desc. make_eig test_engine (Some (Arr2 [[5]])) = Inr desc)
   \<and> make_eig test_engine (Some (Arr2 [[5]]))
       = make_eig test_engine (Some (Arr2 [[5, 5], [5, 5]]))
   \<and> get_ec test_engine (Some (Arr2 [[5]]))
       = get_ec test_engine (Some (Arr2 [[5, 5], [5, 5]]))"
proof -
  have v: "self_get_veff0 test_engine = test_veff0"
    by (simp add: test_engine_def)
  have b: "broadcast_to 2 2 [[5]] = [[5, 5], [5, 5]]"
    by (simp add: broadcast_to_def bidx_def dim1_def eval_nat_numeral)
  have 1: "\<exists>desc. make_eig test_engine (Some (Arr2 [[1, 2], [2, 3]])) = Inr desc"
    using shape_failures [OF test_engine_constructed, of "Arr2 [[1, 2], [2, 3]]"]
    by (simp add: is_matrix_def)
  have 2: "make_eig test_engine (Some (Arr3 [[[1]]])) = Inl RuntimeError
      \<and> get_ec test_engine (Some (Arr3 [[[1]]])) = Inl RuntimeError
      \<and> get_veff test_engine None (Some (Arr3 [[[1]]])) None None 1 = Inl AssertionError"
    using shape_failures [OF test_engine_constructed, of "Arr3 [[[1]]]" None None None 1]
    by simp
  have 3: "make_eig test_engine (Some (Arr2 [[1, 2, 3], [2, 3, 4]])) = Inl RuntimeError
      \<and> get_ec test_engine (Some (Arr2 [[1, 2, 3], [2, 3, 4]])) = Inl RuntimeError
      \<and> get_veff test_engine None (Some (Arr2 [[1, 2, 3], [2, 3, 4]])) None None 1
          = Inl RuntimeError"
    using shape_failures [OF test_engine_constructed,
        where R = 2 and S = 3 and D = "[[1, 2, 3], [2, 3, 4]]" and mol = None
          and dm_last = None and vhf_last = None and hermi = 1]
    by (simp add: is_matrix_def v test_veff0_def)
  have 4: "(\<exists>desc. make_eig test_engine (Some (Arr2 [[5]])) = Inr desc)
      \<and> make_eig test_engine (Some (Arr2 [[5]]))
          = make_eig test_engine (Some (Arr2 [[5, 5], [5, 5]]))
      \<and> get_ec test_engine (Some (Arr2 [[5]]))
          = get_ec test_engine (Some (Arr2 [[5, 5], [5, 5]]))"
    using shape_failures [OF test_engine_constructed, where R = 1 and S = 1 and D = "[[5]]"]
    by (simp add: is_matrix_def b)
  show ?thesis
    using 1 2 3 4 by blast
qed

section \<open>The missing tag\<close>

lemma einsum_returns:
  assumes "einsum_rap_rs_saq po dm po = Inr M"
  shows "\<exists>D. dm = Arr2 D \<and> is_matrix (length D) (dim1 D) D
           \<and> broadcastable (length po) (length D) \<and> broadcastable (length po) (dim1 D)"
  using assms by (cases dm) (auto simp: einsum_rap_rs_saq_def split: if_splits)

lemma t_get_ec_shape:
  assumes c: "constructed nao natm slf" and res: "t_get_ec slf dm = Inr (ec, vc)"
  shows "is_matrix nao nao vc"
    and "\<exists>D. dm = Arr2 D \<and> is_matrix (length D) (dim1 D) D
           \<and> broadcastable nao (length D) \<and> broadcastable nao (dim1 D)"
proof -
  have pos: "0 < nao" "0 < natm"
    using c by (simp_all add: constructed_def)
  from res obtain Vs where seq: "sequence_err (map (\<lambda>(pao, gdm). einsum_rsapq_apq pao gdm)
        (zip (self_t_proj_aos slf)
           (torch_autograd_grad slf (ec_of_dms (torch_symeig slf) (self_net slf))
              (projr (proj_dms (self_t_proj_shells slf) dm))))) = Inr Vs"
    and st: "stack_sum Vs = Inr vc" and ok: "\<exists>Ms. proj_dms (self_t_proj_shells slf) dm = Inr Ms"
    by (auto simp: t_get_ec_def Let_def split: sum.splits)
  from ok obtain Ms where Ms: "proj_dms (self_t_proj_shells slf) dm = Inr Ms"
    by blast
  have ne: "self_t_proj_shells slf \<noteq> []"
    using constructed_shells(1) [OF c] .
  then obtain po ps where sh: "self_t_proj_shells slf = po # ps"
    by (cases "self_t_proj_shells slf") simp_all
  then have "po \<in> set (self_t_proj_shells slf)"
    by simp
  then have lhd: "length po = nao"
    using constructed_shells(2) [OF c] by (simp add: is_tensor3_def)
  have "map (\<lambda>po. einsum_rap_rs_saq po dm po) (self_t_proj_shells slf) = map Inr Ms"
    using Ms unfolding proj_dms_def by (rule sequence_err_Inr)
  then have "einsum_rap_rs_saq po dm po # map (\<lambda>po. einsum_rap_rs_saq po dm po) ps
      = map Inr Ms"
    by (simp add: sh)
  then obtain M where "einsum_rap_rs_saq po dm po = Inr M"
    by (cases Ms) simp_all
  from einsum_returns [OF this]
  show "\<exists>D. dm = Arr2 D \<and> is_matrix (length D) (dim1 D) D
           \<and> broadcastable nao (length D) \<and> broadcastable nao (dim1 D)"
    by (simp add: lhd)
  have V: "is_matrix nao nao V" if "V \<in> set Vs" for V
  proof -
    have "Inr V \<in> set (map (\<lambda>(pao, gdm). einsum_rsapq_apq pao gdm)
        (zip (self_t_proj_aos slf)
           (torch_autograd_grad slf (ec_of_dms (torch_symeig slf) (self_net slf))
              (projr (proj_dms (self_t_proj_shells slf) dm)))))"
      using sequence_err_Inr [OF seq] that by simp
    then obtain pao gdm where "pao \<in> set (self_t_proj_aos slf)"
      and e: "einsum_rsapq_apq pao gdm = Inr V"
      by (auto dest: set_zip_leftD)
    then obtain po where po: "po \<in> set (self_t_proj_shells slf)" and pao: "pao = ao_block po"
      using constructed_shells(3) [OF c] by auto
    have dims: "length pao = nao" "dim1 pao = nao"
      using ao_block_dims(1,2) [OF constructed_shells(2) [OF c po] pos] by (simp_all add: pao)
    from e show ?thesis
      by (auto simp: einsum_rsapq_apq_def dims is_matrix_def split: if_splits)
  qed
  from st have ne: "Vs \<noteq> []" and vc: "vc = map (\<lambda>r. map (\<lambda>s. (\<Sum>k<length Vs. Vs ! k ! r ! s))
                 [0..<dim1 (hd Vs)]) [0..<length (hd Vs)]"
    by (auto simp: stack_sum_def split: if_splits)
  have "is_matrix nao nao (hd Vs)"
    using ne V by simp
  then have "length (hd Vs) = nao" and "dim1 (hd Vs) = nao"
    by (simp_all add: dim1_square) (simp add: is_matrix_def)
  then show "is_matrix nao nao vc"
    by (simp add: vc is_matrix_def)
qed

lemma np_add_returns:
  assumes "np_add A B = Inr C"
  shows "is_matrix (length A) (dim1 A) A" and "broadcastable (length A) (length B)"
    and "broadcastable (dim1 A) (dim1 B)"
  using assms by (auto simp: np_add_def split: if_splits)

lemma np_einsum_ij_ji_returns:
  assumes "is_matrix (length A) (dim1 A) A" and "is_matrix (length D) (dim1 D) D"
    and "broadcastable (length A) (dim1 D)" and "broadcastable (dim1 A) (length D)"
  shows "\<exists>x. np_einsum_ij_ji A (Arr2 D) = Inr x"
  using assms by (simp add: np_einsum_ij_ji_def)

lemma broadcastable_both:
  assumes "broadcastable n k" and "broadcastable n m" and "n \<noteq> 1"
  shows "broadcastable k m"
  using assms by (auto simp: broadcastable_def)

lemma broadcastable_sym: "broadcastable n m \<Longrightarrow> broadcastable m n"
  by (auto simp: broadcastable_def)

lemma get_veff_returns:
  assumes c: "constructed nao natm slf"
    and res: "get_veff slf mol (Some dm) dm_last vhf_last hermi = Inr v"
  shows "\<exists>D Ec V0. dm = Arr2 D \<and> tag_ec v = Some Ec \<and> tag_v0 v = Some V0
           \<and> is_matrix (length D) (dim1 D) D
           \<and> broadcastable nao (length D) \<and> broadcastable nao (dim1 D)
           \<and> is_matrix (length V0) (dim1 V0) V0
           \<and> broadcastable nao (length V0) \<and> broadcastable nao (dim1 V0)"
proof -
  have pos: "0 < nao"
    using c by (simp add: constructed_def)
  from res obtain V0 ec vc vtot where g: "t_get_ec slf dm = Inr (ec, vc)"
    and a: "np_add V0 vc = Inr vtot" and v: "v = \<lparr> arr = vtot, tag_ec = Some ec, tag_v0 = Some V0 \<rparr>"
    by (auto simp: get_veff_def get_ec_def Let_def split: if_splits sum.splits prod.splits)
  have vc: "is_matrix nao nao vc"
    using t_get_ec_shape(1) [OF c g] .
  then have lvc: "length vc = nao" and dvc: "dim1 vc = nao"
    using dim1_matrix [OF vc pos] by (simp_all add: is_matrix_def)
  obtain D where D: "dm = Arr2 D" "is_matrix (length D) (dim1 D) D"
    "broadcastable nao (length D)" "broadcastable nao (dim1 D)"
    using t_get_ec_shape(2) [OF c g] by blast
  have "is_matrix (length V0) (dim1 V0) V0"
    and "broadcastable nao (length V0)" and "broadcastable nao (dim1 V0)"
    using np_add_returns [OF a] by (simp_all add: lvc dvc broadcastable_sym)
  then show ?thesis
    using D by (simp add: v)
qed

text \<open>
  C6: when no potential is passed, or one without the correction-energy tag, the energy
  decomposition does not fail for the missing tag: it calls \<^verbatim>\<open>get_veff\<close> on the
  density matrix and goes on with the result, which carries both tags. Whenever that
  call returns, the decomposition is the one of the recomputed potential; it returns,
  and for a density matrix and a baseline potential of the size of the basis it returns
  the energies \<open>0.5 trace(D V0) + trace(D H) + Ec\<close> and \<open>0.5 trace(D V0) + Ec\<close> of the
  recomputed potential.
\<close>

theorem missing_tag_recomputes:
  assumes "vhf = None \<or> (\<exists>u. vhf = Some u \<and> tag_ec u = None)"
    and "constructed nao natm slf"
    and "(case dm of None \<Rightarrow> self_make_rdm1 slf | Some d \<Rightarrow> d) = dm'"
    and "(case h1e of None \<Rightarrow> self_get_hcore slf | Some h \<Rightarrow> h) = H"
    and "is_matrix nao nao H"
    and "get_veff slf None (Some dm') None None 1 = Inr v"
  shows "\<exists>D Ec V0. dm' = Arr2 D \<and> tag_ec v = Some Ec \<and> tag_v0 v = Some V0
           \<and> energy_elec slf dm h1e vhf = energy_elec slf dm h1e (Some v)
           \<and> (nao \<noteq> 1 \<longrightarrow> (\<exists>e. energy_elec slf dm h1e vhf = Inr e))
           \<and> (is_matrix nao nao D \<and> is_matrix nao nao V0 \<longrightarrow>
                energy_elec slf dm h1e vhf
                  = Inr (0.5 * trace (mat_mul D V0) + trace (mat_mul D H) + Ec,
                         0.5 * trace (mat_mul D V0) + Ec))"
proof -
  have pos: "0 < nao"
    using assms(2) by (simp add: constructed_def)
  obtain D Ec V0 where D: "dm' = Arr2 D" and tags: "tag_ec v = Some Ec" "tag_v0 v = Some V0"
    and rD: "is_matrix (length D) (dim1 D) D"
    and bD: "broadcastable nao (length D)" "broadcastable nao (dim1 D)"
    and rV: "is_matrix (length V0) (dim1 V0) V0"
    and bV: "broadcastable nao (length V0)" "broadcastable nao (dim1 V0)"
    using get_veff_returns [OF assms(2,6)] by blast
  have lH: "length H = nao" and dH: "dim1 H = nao"
    using assms(5) dim1_matrix [OF assms(5) pos] by (simp_all add: is_matrix_def)
  have args: "energy_elec slf dm h1e w = energy_elec slf (Some (Arr2 D)) (Some H) w" for w
    using assms(3,4) D by (simp add: energy_elec_def)
  have "energy_elec slf (Some (Arr2 D)) (Some H) vhf
      = energy_elec slf (Some (Arr2 D)) (Some H) (Some v)"
    using energy_elec_untagged [OF assms(1), of slf "Arr2 D" "Some H"] assms(6) D by simp
  then have eq: "energy_elec slf dm h1e vhf = energy_elec slf dm h1e (Some v)"
    by (simp add: args)
  have ret: "\<exists>e. energy_elec slf dm h1e (Some v) = Inr e" if "nao \<noteq> 1"
  proof -
    obtain e1 where e1: "np_einsum_ij_ji H (Arr2 D) = Inr e1"
      using np_einsum_ij_ji_returns [of H D] assms(5) rD bD by (auto simp: lH dH)
    have "broadcastable (length V0) (dim1 D)" and "broadcastable (dim1 V0) (length D)"
      using bV bD that by (auto intro: broadcastable_both)
    then obtain c where c: "np_einsum_ij_ji V0 (Arr2 D) = Inr c"
      using np_einsum_ij_ji_returns [OF rV rD] by blast
    show ?thesis
      unfolding args by (simp add: energy_elec_def Let_def tags e1 c)
  qed
  have formula: "energy_elec slf dm h1e (Some v)
      = Inr (0.5 * trace (mat_mul D V0) + trace (mat_mul D H) + Ec,
             0.5 * trace (mat_mul D V0) + Ec)"
    if "is_matrix nao nao D" and "is_matrix nao nao V0"
    unfolding args using energy_elec_tagged [OF that(1) assms(5) that(2) tags, of slf] by simp
  have "dm' = Arr2 D \<and> tag_ec v = Some Ec \<and> tag_v0 v = Some V0
      \<and> energy_elec slf dm h1e vhf = energy_elec slf dm h1e (Some v)
      \<and> (nao \<noteq> 1 \<longrightarrow> (\<exists>e. energy_elec slf dm h1e vhf = Inr e))
      \<and> (is_matrix nao nao D \<and> is_matrix nao nao V0 \<longrightarrow>
            energy_elec slf dm h1e vhf
              = Inr (0.5 * trace (mat_mul D V0) + trace (mat_mul D H) + Ec,
                     0.5 * trace (mat_mul D V0) + Ec))"
    unfolding eq using D tags ret formula by simp
  then show ?thesis
    by (intro exI)
qed

theorem missing_tag_recomputes_witness:
  "energy_elec test_engine None None None = Inr (3 / 125 + 8, 3 / 125 + 4)"
proof -
  define v where "v = \<lparr> arr = [[1001 / 1000, 501 / 500], [501 / 500, 201 / 200]],
                         tag_ec = Some (3 / 125), tag_v0 = Some [[1, 1], [1, 1]] \<rparr>"
  have rdm: "(case None of None \<Rightarrow> self_make_rdm1 test_engine | Some d \<Rightarrow> d)
      = Arr2 [[1, 2], [2, 3]]"
    and hcore: "(case None of None \<Rightarrow> self_get_hcore test_engine | Some h \<Rightarrow> h)
      = [[1, 0], [0, 1]]"
    by (simp_all add: test_engine_def)
  have H: "is_matrix 2 2 [[1, 0], [0, 1 :: real]]"
    by (simp add: is_matrix_def)
  have veff: "get_veff test_engine None (Some (Arr2 [[1, 2], [2, 3]])) None None 1 = Inr v"
    using test_engine_get_veff rdm by (simp add: get_veff_def v_def)
  have "\<exists>D Ec V0. Arr2 [[1, 2], [2, 3]] = Arr2 D \<and> tag_ec v = Some Ec \<and> tag_v0 v = Some V0
      \<and> energy_elec test_engine None None None = energy_elec test_engine None None (Some v)
      \<and> (2 \<noteq> (1 :: nat) \<longrightarrow> (\<exists>e. energy_elec test_engine None None None = Inr e))
      \<and> (is_matrix 2 2 D \<and> is_matrix 2 2 V0 \<longrightarrow>
            energy_elec test_engine None None None
              = Inr (0.5 * trace (mat_mul D V0) + trace (mat_mul D [[1, 0], [0, 1]]) + Ec,
                     0.5 * trace (mat_mul D V0) + Ec))"
    by (rule missing_tag_recomputes [OF _ test_engine_constructed rdm hcore H veff]) simp
  then obtain D Ec V0 where d: "Arr2 [[1, 2], [2, 3]] = Arr2 D"
    and t: "tag_ec v = Some Ec" "tag_v0 v = Some V0"
    and e: "is_matrix 2 2 D \<and> is_matrix 2 2 V0 \<longrightarrow>
        energy_elec test_engine None None None
               = Inr (0.5 * trace (mat_mul D V0) + trace (mat_mul D [[1, 0], [0, 1]]) + Ec,
                      0.5 * trace (mat_mul D V0) + Ec)"
    by blast
  from d t have vals: "D = [[1, 2], [2, 3]]" "Ec = 3 / 125" "V0 = [[1, 1], [1, 1]]"
    by (simp_all add: v_def)
  have "is_matrix 2 2 D \<and> is_matrix 2 2 V0"
    by (simp add: vals is_matrix_def)
  with e have "energy_elec test_engine None None None
      = Inr (0.5 * trace (mat_mul D V0) + trace (mat_mul D [[1, 0], [0, 1]]) + Ec,
             0.5 * trace (mat_mul D V0) + Ec)"
    by blast
  then show ?thesis
    unfolding vals by (simp add: trace_def mat_mul_def dim1_def lessThan_Suc eval_nat_numeral)
qed

end
